theory Spec2Isabelle
  imports Complex_Main "HOL-Library.Multiset"
begin

section \<open>Mars Explorer Hub: the NASA client and the display helpers\<close>

text \<open>
  This theory embeds \<^verbatim>\<open>src/data/nasa_client.py\<close> (class \<^verbatim>\<open>NASAClient\<close>) and
  \<^verbatim>\<open>src/utils/helpers.py\<close> and proves properties of the embedded functions.

  Conventions.
  \<^item> A parsed JSON document is a value of type \<open>json\<close>. Python's \<^verbatim>\<open>None\<close> is \<open>JNull\<close>, a
    \<^verbatim>\<open>dict\<close> is the list of its items in insertion order, a \<^verbatim>\<open>float\<close> is the real
    number it denotes (infinities and NaN are not represented).
  \<^item> A Python \<^verbatim>\<open>str\<close> is a \<open>string\<close> holding its UTF-8 encoding. The methods
    \<^verbatim>\<open>isdigit\<close>, \<^verbatim>\<open>lower\<close>, \<^verbatim>\<open>title\<close> and the conversion \<^verbatim>\<open>int(str)\<close> are given for
    ASCII text, on which they agree with Python; what Python does with digits, letters and
    white space outside ASCII is not part of the model. \<^verbatim>\<open>int(str)\<close> refuses a numeral of
    more than 4300 digits, the interpreter's default for \<^verbatim>\<open>sys.int_max_str_digits\<close>, which
    the repository does not change.
  \<^item> Every exception the source can raise is a value \<open>Inl e\<close>; \<^verbatim>\<open>st.error\<close>,
    \<^verbatim>\<open>st.warning\<close> and the HTTP requests are recorded, in order, in a list of events.
  \<^item> The \<^verbatim>\<open>st.cache_data\<close> decorators are left out: the functions are modelled as they run
    on a cache miss.
\<close>

subsection \<open>JSON values and Python errors\<close>

datatype json =
    JNull
  | JBool bool
  | JInt int
  | JFloat real
  | JStr string
  | JArr "json list"
  | JObj "(string \<times> json) list"

datatype py_error = AttributeError | TypeError | KeyError | ValueError | IndexError

text \<open>Python's truth value of a JSON value (\<^verbatim>\<open>if not data\<close>).\<close>

fun truthy :: "json \<Rightarrow> bool" where
  "truthy JNull = False"
| "truthy (JBool b) = b"
| "truthy (JInt n) = (n \<noteq> 0)"
| "truthy (JFloat r) = (r \<noteq> 0)"
| "truthy (JStr s) = (s \<noteq> [])"
| "truthy (JArr xs) = (xs \<noteq> [])"
| "truthy (JObj kvs) = (kvs \<noteq> [])"

text \<open>Sequencing of computations that may raise.\<close>

definition seq :: "py_error + 'a \<Rightarrow> ('a \<Rightarrow> py_error + 'b) \<Rightarrow> py_error + 'b" where
  "seq m f = (case m of Inl e \<Rightarrow> Inl e | Inr v \<Rightarrow> f v)"

text \<open>A \<^verbatim>\<open>for\<close> loop that appends one computed item per element and stops at the first raise.\<close>

primrec collect :: "('a \<Rightarrow> py_error + 'b) \<Rightarrow> 'a list \<Rightarrow> py_error + 'b list" where
  "collect f [] = Inr []"
| "collect f (x # xs) =
     (case f x of
        Inl e \<Rightarrow> Inl e
      | Inr y \<Rightarrow> (case collect f xs of Inl e \<Rightarrow> Inl e | Inr ys \<Rightarrow> Inr (y # ys)))"

subsection \<open>String methods\<close>

definition isdigit_char :: "char \<Rightarrow> bool" where
  "isdigit_char c = (48 \<le> (of_char c :: nat) \<and> (of_char c :: nat) \<le> 57)"

definition isupper_char :: "char \<Rightarrow> bool" where
  "isupper_char c = (65 \<le> (of_char c :: nat) \<and> (of_char c :: nat) \<le> 90)"

definition islower_char :: "char \<Rightarrow> bool" where
  "islower_char c = (97 \<le> (of_char c :: nat) \<and> (of_char c :: nat) \<le> 122)"

text \<open>
  The white space that \<^verbatim>\<open>int(str)\<close> skips around the numeral of an ASCII string: tab, line
  feed, vertical tab, form feed, carriage return and space.
\<close>

definition isspace_char :: "char \<Rightarrow> bool" where
  "isspace_char c = ((of_char c :: nat) \<in> {9, 10, 11, 12, 13, 32})"

definition lower_char :: "char \<Rightarrow> char" where
  "lower_char c = (if isupper_char c then char_of ((of_char c :: nat) + 32) else c)"

definition upper_char :: "char \<Rightarrow> char" where
  "upper_char c = (if islower_char c then char_of ((of_char c :: nat) - 32) else c)"

text \<open>\<^verbatim>\<open>str.isdigit()\<close>: non-empty and every character a digit.\<close>

definition isdigit :: "string \<Rightarrow> bool" where
  "isdigit s = (s \<noteq> [] \<and> list_all isdigit_char s)"

text \<open>\<^verbatim>\<open>str.lower()\<close>.\<close>

definition lower :: "string \<Rightarrow> string" where
  "lower s = map lower_char s"

text \<open>
  \<^verbatim>\<open>str.title()\<close>: a character that follows a cased character is lowercased, any other
  character is uppercased.
\<close>

fun title_from :: "bool \<Rightarrow> string \<Rightarrow> string" where
  "title_from previous_is_cased [] = []"
| "title_from previous_is_cased (c # cs) =
     (if previous_is_cased then lower_char c else upper_char c)
       # title_from (isupper_char c \<or> islower_char c) cs"

definition title :: "string \<Rightarrow> string" where
  "title s = title_from False s"

text \<open>\<^verbatim>\<open>str.replace(old, new)\<close> for one-character \<^verbatim>\<open>old\<close> and \<^verbatim>\<open>new\<close>.\<close>

definition replace :: "char \<Rightarrow> char \<Rightarrow> string \<Rightarrow> string" where
  "replace old new s = map (\<lambda>c. if c = old then new else c) s"

text \<open>\<^verbatim>\<open>s.startswith(key)\<close>.\<close>

fun startswith :: "string \<Rightarrow> string \<Rightarrow> bool" where
  "startswith s [] = True"
| "startswith [] (k # ks) = False"
| "startswith (c # cs) (k # ks) = (c = k \<and> startswith cs ks)"

text \<open>\<^verbatim>\<open>needle in s\<close> for two strings: \<^verbatim>\<open>needle\<close> occurs in \<^verbatim>\<open>s\<close>.\<close>

fun occurs_in :: "string \<Rightarrow> string \<Rightarrow> bool" where
  "occurs_in needle [] = (needle = [])"
| "occurs_in needle (c # cs) = (startswith (c # cs) needle \<or> occurs_in needle cs)"

text \<open>\<^verbatim>\<open>s.split(sep)\<close> for a one-character separator; the result is never empty.\<close>

fun split :: "char \<Rightarrow> string \<Rightarrow> string list" where
  "split sep [] = [[]]"
| "split sep (c # cs) =
     (if c = sep then [] # split sep cs
      else (case split sep cs of
              [] \<Rightarrow> [[c]]
            | w # ws \<Rightarrow> (c # w) # ws))"

text \<open>The string without the white space that \<^verbatim>\<open>int(str)\<close> skips at its two ends.\<close>

definition strip :: "string \<Rightarrow> string" where
  "strip s = rev (dropWhile isspace_char (rev (dropWhile isspace_char s)))"

text \<open>The number a string of decimal digits denotes.\<close>

definition digit_value :: "char \<Rightarrow> nat" where
  "digit_value c = (of_char c :: nat) - 48"

definition decimal_value :: "string \<Rightarrow> nat" where
  "decimal_value s = foldl (\<lambda>n c. 10 * n + digit_value c) 0 s"

text \<open>
  The default of \<^verbatim>\<open>sys.int_max_str_digits\<close>: the largest number of digits, leading zeros
  counted and underscores not, that \<^verbatim>\<open>int(str)\<close> converts.
\<close>

definition int_max_str_digits :: nat where
  "int_max_str_digits = 4300"

text \<open>
  \<^verbatim>\<open>int(s)\<close> for a string: surrounding white space, an optional sign, then groups of
  digits separated by single underscores, at most \<open>int_max_str_digits\<close> digits in all;
  anything else raises \<^verbatim>\<open>ValueError\<close>.
\<close>

definition int_of_str :: "string \<Rightarrow> py_error + int" where
  "int_of_str s =
     (let t = strip s;
          negative = (t \<noteq> [] \<and> hd t = CHR ''-'');
          signed = (t \<noteq> [] \<and> (hd t = CHR ''-'' \<or> hd t = CHR ''+''));
          body = (if signed then tl t else t);
          groups = split (CHR ''_'') body
      in if list_all isdigit groups \<and> length (concat groups) \<le> int_max_str_digits
         then Inr ((if negative then - 1 else 1) * int (decimal_value (concat groups)))
         else Inl ValueError)"

text \<open>The decimal numeral of a natural number (\<^verbatim>\<open>str(n)\<close>).\<close>

fun digits :: "nat \<Rightarrow> string" where
  "digits n =
     (if n < 10 then [char_of (48 + n)]
      else digits (n div 10) @ [char_of (48 + n mod 10)])"

declare digits.simps [simp del]

subsection \<open>Operations on JSON values\<close>

text \<open>\<^verbatim>\<open>d.get(key, default)\<close> on the items of a dict.\<close>

definition dict_get :: "(string \<times> json) list \<Rightarrow> string \<Rightarrow> json \<Rightarrow> json" where
  "dict_get kvs key dflt = (case map_of kvs key of None \<Rightarrow> dflt | Some v \<Rightarrow> v)"

text \<open>\<^verbatim>\<open>x.get(key, default)\<close>: only a dict has the method.\<close>

fun py_get :: "json \<Rightarrow> string \<Rightarrow> json \<Rightarrow> py_error + json" where
  "py_get (JObj kvs) key dflt = Inr (dict_get kvs key dflt)"
| "py_get x key dflt = Inl AttributeError"

text \<open>\<^verbatim>\<open>x.keys()\<close>.\<close>

fun py_keys :: "json \<Rightarrow> py_error + string list" where
  "py_keys (JObj kvs) = Inr (map fst kvs)"
| "py_keys x = Inl AttributeError"

text \<open>\<^verbatim>\<open>x[key]\<close> for a string key.\<close>

fun py_getitem :: "json \<Rightarrow> string \<Rightarrow> py_error + json" where
  "py_getitem (JObj kvs) key = (case map_of kvs key of None \<Rightarrow> Inl KeyError | Some v \<Rightarrow> Inr v)"
| "py_getitem x key = Inl TypeError"

text \<open>\<^verbatim>\<open>needle in x\<close> for a string \<^verbatim>\<open>needle\<close>.\<close>

fun py_contains :: "string \<Rightarrow> json \<Rightarrow> py_error + bool" where
  "py_contains needle (JStr s) = Inr (occurs_in needle s)"
| "py_contains needle (JArr xs) = Inr (JStr needle \<in> set xs)"
| "py_contains needle (JObj kvs) = Inr (needle \<in> set (map fst kvs))"
| "py_contains needle x = Inl TypeError"

text \<open>\<^verbatim>\<open>x > 0\<close>.\<close>

fun py_gt_zero :: "json \<Rightarrow> py_error + bool" where
  "py_gt_zero (JInt n) = Inr (n > 0)"
| "py_gt_zero (JFloat r) = Inr (r > 0)"
| "py_gt_zero (JBool b) = Inr b"
| "py_gt_zero x = Inl TypeError"

text \<open>\<^verbatim>\<open>int(x)\<close>; a float is truncated towards zero.\<close>

fun py_int :: "json \<Rightarrow> py_error + int" where
  "py_int (JInt n) = Inr n"
| "py_int (JBool b) = Inr (if b then 1 else 0)"
| "py_int (JFloat r) = Inr (if r < 0 then \<lceil>r\<rceil> else \<lfloor>r\<rfloor>)"
| "py_int (JStr s) = int_of_str s"
| "py_int x = Inl TypeError"

text \<open>\<^verbatim>\<open>xs[:n]\<close>: a negative \<^verbatim>\<open>n\<close> counts from the end.\<close>

definition slice_to :: "int \<Rightarrow> 'a list \<Rightarrow> 'a list" where
  "slice_to n xs = (if n < 0 then take (nat (int (length xs) + n)) xs else take (nat n) xs)"

text \<open>
  \<^verbatim>\<open>x[:n]\<close>; a dict, a number and \<^verbatim>\<open>None\<close> cannot be sliced (for a dict the exception is
  a \<^verbatim>\<open>TypeError\<close> up to Python 3.11 and a \<^verbatim>\<open>KeyError\<close> from 3.12 on; the model has the
  former).
\<close>

fun py_slice_to :: "int \<Rightarrow> json \<Rightarrow> py_error + json" where
  "py_slice_to n (JArr xs) = Inr (JArr (slice_to n xs))"
| "py_slice_to n (JStr s) = Inr (JStr (slice_to n s))"
| "py_slice_to n x = Inl TypeError"

text \<open>The elements a \<^verbatim>\<open>for\<close> loop over \<^verbatim>\<open>x\<close> visits, and those of \<^verbatim>\<open>reversed(x)\<close>.\<close>

fun py_iter :: "json \<Rightarrow> py_error + json list" where
  "py_iter (JArr xs) = Inr xs"
| "py_iter (JStr s) = Inr (map (\<lambda>c. JStr [c]) s)"
| "py_iter (JObj kvs) = Inr (map (\<lambda>kv. JStr (fst kv)) kvs)"
| "py_iter x = Inl TypeError"

definition py_reversed :: "json \<Rightarrow> py_error + json list" where
  "py_reversed x = seq (py_iter x) (\<lambda>xs. Inr (rev xs))"

subsection \<open>Display helpers (\<^verbatim>\<open>src/utils/helpers.py\<close>)\<close>

definition celsius_to_fahrenheit :: "real option \<Rightarrow> real option" where
  "celsius_to_fahrenheit celsius =
     (case celsius of None \<Rightarrow> None | Some c \<Rightarrow> Some ((c * 9 / 5) + 32))"

definition fahrenheit_to_celsius :: "real option \<Rightarrow> real option" where
  "fahrenheit_to_celsius fahrenheit =
     (case fahrenheit of None \<Rightarrow> None | Some f \<Rightarrow> Some ((f - 32) * 5 / 9))"

text \<open>
  The format specification \<^verbatim>\<open>.pf\<close>: the value rounded to \<open>p\<close> decimals, a tie to the
  even neighbour, with a minus sign whenever the value is negative.
\<close>

definition round_half_even :: "real \<Rightarrow> int" where
  "round_half_even x =
     (let f = \<lfloor>x\<rfloor>; d = x - of_int f
      in if d < 1 / 2 then f
         else if 1 / 2 < d then f + 1
         else if even f then f else f + 1)"

definition format_f :: "nat \<Rightarrow> real \<Rightarrow> string" where
  "format_f p x =
     (let m = nat (round_half_even (\<bar>x\<bar> * 10 ^ p));
          whole = digits (m div 10 ^ p);
          frac = digits (m mod 10 ^ p)
      in (if x < 0 then ''-'' else '''') @ whole
         @ (if p = 0 then '''' else ''.'' @ replicate (p - length frac) (CHR ''0'') @ frac))"

text \<open>
  The three bytes that precede \<^verbatim>\<open>C\<close> and \<^verbatim>\<open>F\<close> in the literals of
  \<^verbatim>\<open>format_temperature\<close> (\<^verbatim>\<open>EC A7 B8\<close>, the character U+C9F8), and the degree sign
  U+00B0 (\<^verbatim>\<open>C2 B0\<close>) that \<^verbatim>\<open>src/ui/weather_components.py\<close> writes before the same letters.
\<close>

definition helpers_symbol_prefix :: string where
  "helpers_symbol_prefix = [CHR 0xEC, CHR 0xA7, CHR 0xB8]"

definition degree_sign :: string where
  "degree_sign = [CHR 0xC2, CHR 0xB0]"

definition format_temperature :: "real option \<Rightarrow> string \<Rightarrow> string" where
  "format_temperature temp unit =
     (case temp of
        None \<Rightarrow> ''N/A''
      | Some t \<Rightarrow>
          (let symbol = (if unit = ''C'' then helpers_symbol_prefix @ ''C''
                         else helpers_symbol_prefix @ ''F'')
           in format_f 1 t @ symbol))"

definition format_pressure :: "real option \<Rightarrow> string" where
  "format_pressure pressure =
     (case pressure of None \<Rightarrow> ''N/A'' | Some p \<Rightarrow> format_f 0 p @ '' Pa'')"

subsection \<open>Instrument names (\<^verbatim>\<open>NASAClient._format_camera_name\<close>)\<close>

definition camera_map :: "(string \<times> string) list" where
  "camera_map =
     [(''NAV_LEFT'', ''Navigation Camera - Left''),
      (''NAV_RIGHT'', ''Navigation Camera - Right''),
      (''NAV_LEFT_B'', ''Navigation Camera - Left B''),
      (''NAV_RIGHT_B'', ''Navigation Camera - Right B''),
      (''FHAZ_LEFT'', ''Front Hazard Avoidance Camera - Left''),
      (''FHAZ_RIGHT'', ''Front Hazard Avoidance Camera - Right''),
      (''RHAZ_LEFT'', ''Rear Hazard Avoidance Camera - Left''),
      (''RHAZ_RIGHT'', ''Rear Hazard Avoidance Camera - Right''),
      (''MAST_LEFT'', ''Mast Camera - Left''),
      (''MAST_RIGHT'', ''Mast Camera - Right''),
      (''MAHLI'', ''Mars Hand Lens Imager''),
      (''MARDI'', ''Mars Descent Imager''),
      (''CHEMCAM'', ''Chemistry and Camera Complex'')]"

text \<open>The loop over \<^verbatim>\<open>camera_map.items()\<close> that returns at the first key the code starts with.\<close>

fun partial_match :: "string \<Rightarrow> (string \<times> string) list \<Rightarrow> string option" where
  "partial_match instrument [] = None"
| "partial_match instrument ((key, val) # items) =
     (if startswith instrument key then Some val else partial_match instrument items)"

definition format_camera_name :: "string \<Rightarrow> string" where
  "format_camera_name instrument =
     (case map_of camera_map instrument of
        Some val \<Rightarrow> val
      | None \<Rightarrow>
          (case partial_match instrument camera_map of
             Some val \<Rightarrow> val
           | None \<Rightarrow> title (replace (CHR ''_'') (CHR '' '') instrument)))"

subsection \<open>Formatted text, events and the network\<close>

text \<open>
  An f-string or a \<^verbatim>\<open>str.format\<close> result is the list of its fragments: literal text and
  interpolated values, whose rendering is left to Python's \<^verbatim>\<open>str\<close>.
\<close>

datatype fragment = Text string | Value json

type_synonym fstring = "fragment list"

record http_request =
  url :: fstring
  params :: "(string \<times> string) list option"
  timeout :: int

text \<open>
  What \<^verbatim>\<open>session.get\<close>, \<^verbatim>\<open>raise_for_status\<close> and \<^verbatim>\<open>response.json\<close> do for a request: the
  parsed body, an exception of the \<^verbatim>\<open>requests\<close> library named by the first
  \<^verbatim>\<open>except\<close> clause of \<^verbatim>\<open>_make_request\<close> that matches it (\<^verbatim>\<open>Timeout\<close>, then
  \<^verbatim>\<open>HTTPError\<close> with its status code, then any other \<^verbatim>\<open>RequestException\<close>, each with
  its \<^verbatim>\<open>str(e)\<close>), or an exception that no clause matches. The network is a function of
  the request: no function of the client sends the same request twice in one call. The API
  key that the session adds to every request is not part of the request record.
\<close>

datatype requests_exception =
    Timeout string
  | HTTPError nat string
  | RequestException string

datatype http_result = Returns json | Raises requests_exception | RaisesOther py_error

type_synonym network = "http_request \<Rightarrow> http_result"

datatype event = HttpGet http_request | st_error fstring | st_warning fstring

text \<open>The events of a computation, then the exception it raised or the value it returned.\<close>

type_synonym 'a outcome = "event list \<times> (py_error + 'a)"

definition returning :: "event list \<Rightarrow> 'a \<Rightarrow> 'a outcome" where
  "returning evs v = (evs, Inr v)"

definition pure_step :: "py_error + 'a \<Rightarrow> 'a outcome" where
  "pure_step r = ([], r)"

definition and_then :: "'a outcome \<Rightarrow> ('a \<Rightarrow> 'b outcome) \<Rightarrow> 'b outcome" where
  "and_then m f =
     (case snd m of
        Inl e \<Rightarrow> (fst m, Inl e)
      | Inr v \<Rightarrow> (fst m @ fst (f v), snd (f v)))"

text \<open>The requests among the events of a computation, in the order they were sent.\<close>

fun requests_of :: "event list \<Rightarrow> http_request list" where
  "requests_of [] = []"
| "requests_of (HttpGet request # evs) = request # requests_of evs"
| "requests_of (st_error text # evs) = requests_of evs"
| "requests_of (st_warning text # evs) = requests_of evs"

text \<open>
  A network that answers by the address alone, from a table; an address that is not in
  the table cannot be reached.
\<close>

definition canned :: "(fstring \<times> http_result) list \<Rightarrow> network" where
  "canned table request =
     (case map_of table (url request) of
        None \<Rightarrow> Raises (RequestException ''unreachable'')
      | Some answer \<Rightarrow> answer)"

subsection \<open>Configuration (\<^verbatim>\<open>config.py\<close>) and message texts\<close>

definition NASA_API_BASE_URL :: string where
  "NASA_API_BASE_URL = ''https://api.nasa.gov''"

definition MARS_WEATHER_ENDPOINT :: fstring where
  "MARS_WEATHER_ENDPOINT = [Text (NASA_API_BASE_URL @ ''/insight_weather/'')]"

definition MSL_MANIFEST_URL :: fstring where
  "MSL_MANIFEST_URL = [Text ''https://mars.nasa.gov/msl-raw-images/image/image_manifest.json'']"

text \<open>\<^verbatim>\<open>MSL_SOL_IMAGES_URL_TEMPLATE.format(sol=latest_sol)\<close>.\<close>

definition MSL_SOL_IMAGES_URL_TEMPLATE :: "json \<Rightarrow> fstring" where
  "MSL_SOL_IMAGES_URL_TEMPLATE latest_sol =
     [Text ''https://mars.nasa.gov/msl-raw-images/image/images_sol'', Value latest_sol,
      Text ''.json'']"

text \<open>The pictographs that open the messages, as UTF-8.\<close>

definition stopwatch :: string where
  "stopwatch = [CHR 0xE2, CHR 0x8F, CHR 0xB1, CHR 0xEF, CHR 0xB8, CHR 0x8F]"

definition no_entry_sign :: string where
  "no_entry_sign = [CHR 0xF0, CHR 0x9F, CHR 0x9A, CHR 0xAB]"

definition cross_mark :: string where
  "cross_mark = [CHR 0xE2, CHR 0x9D, CHR 0x8C]"

definition globe :: string where
  "globe = [CHR 0xF0, CHR 0x9F, CHR 0x8C, CHR 0x90]"

definition warning_sign :: string where
  "warning_sign = [CHR 0xE2, CHR 0x9A, CHR 0xA0, CHR 0xEF, CHR 0xB8, CHR 0x8F]"

definition timeout_message :: fstring where
  "timeout_message =
     [Text (stopwatch @ '' Request timeout - NASA servers might be slow. Please try again.'')]"

definition rate_limit_message :: fstring where
  "rate_limit_message =
     [Text (no_entry_sign @ '' Rate limit exceeded. Please wait a moment before refreshing.'')]"

definition http_error_message :: "nat \<Rightarrow> string \<Rightarrow> fstring" where
  "http_error_message status_code str_e =
     [Text (cross_mark @ '' HTTP Error ''), Value (JInt (int status_code)), Text '': '',
      Text str_e]"

definition network_error_message :: "string \<Rightarrow> fstring" where
  "network_error_message str_e = [Text (globe @ '' Network error: ''), Text str_e]"

definition no_weather_message :: fstring where
  "no_weather_message =
     [Text (warning_sign
        @ '' No weather data available. InSight mission ended in December 2022.'')]"

definition rover_not_available_message :: "string \<Rightarrow> fstring" where
  "rover_not_available_message titled =
     [Text (warning_sign @ '' ''), Text titled,
      Text '' rover is not currently available. Only Curiosity rover is supported.'']"

definition no_manifest_message :: fstring where
  "no_manifest_message = [Text (cross_mark @ '' Could not retrieve Curiosity rover manifest'')]"

definition no_image_data_message :: fstring where
  "no_image_data_message = [Text (warning_sign @ '' No image data available in manifest'')]"

definition no_recent_photos_message :: fstring where
  "no_recent_photos_message = [Text (warning_sign @ '' No recent photos found for Curiosity'')]"

definition no_sol_images_message :: "json \<Rightarrow> fstring" where
  "no_sol_images_message latest_sol =
     [Text (cross_mark @ '' Could not retrieve images for Sol ''), Value latest_sol]"

definition no_images_found_message :: "json \<Rightarrow> fstring" where
  "no_images_found_message latest_sol =
     [Text (warning_sign @ '' No images found for Sol ''), Value latest_sol]"

subsection \<open>The gateway (\<^verbatim>\<open>NASAClient._make_request\<close>)\<close>

text \<open>
  \<open>make_request\<close> is \<^verbatim>\<open>_make_request\<close> (a name cannot begin with an underscore here, and
  likewise for \<^verbatim>\<open>_format_camera_name\<close>). The third argument is \<^verbatim>\<open>params\<close>; the fourth is
  \<^verbatim>\<open>timeout\<close>, \<open>None\<close> when the caller leaves it to the default of the signature,
  \<^verbatim>\<open>timeout: int = 10\<close>.
\<close>

definition timeout_or_default :: "int option \<Rightarrow> int" where
  "timeout_or_default t = (case t of None \<Rightarrow> 10 | Some seconds \<Rightarrow> seconds)"

definition make_request ::
  "network \<Rightarrow> fstring \<Rightarrow> (string \<times> string) list option \<Rightarrow> int option \<Rightarrow> json outcome" where
  "make_request net u ps t =
     (let request = \<lparr>url = u, params = ps, timeout = timeout_or_default t\<rparr>
      in case net request of
           Returns body \<Rightarrow> ([HttpGet request], Inr body)
         | Raises (Timeout str_e) \<Rightarrow>
             ([HttpGet request, st_error timeout_message], Inr JNull)
         | Raises (HTTPError status_code str_e) \<Rightarrow>
             ([HttpGet request,
               st_error (if status_code = 429 then rate_limit_message
                         else http_error_message status_code str_e)], Inr JNull)
         | Raises (RequestException str_e) \<Rightarrow>
             ([HttpGet request, st_error (network_error_message str_e)], Inr JNull)
         | RaisesOther e \<Rightarrow> ([HttpGet request], Inl e))"

subsection \<open>Weather (\<^verbatim>\<open>NASAClient.get_mars_weather\<close>)\<close>

record weather_record =
  sol :: int
  min_temp_c :: json
  max_temp_c :: json
  avg_temp_c :: json
  pressure_pa :: json
  season :: json
  earth_date :: json

text \<open>The body of the loop over \<^verbatim>\<open>sol_keys\<close>: the record appended for one key.\<close>

definition weather_record_of :: "json \<Rightarrow> string \<Rightarrow> py_error + weather_record" where
  "weather_record_of data sol_key =
     seq (py_getitem data sol_key) (\<lambda>sol_data.
     seq (py_get sol_data ''AT'' (JObj [])) (\<lambda>temp_data.
     seq (py_get temp_data ''mn'' JNull) (\<lambda>min_temp.
     seq (py_get temp_data ''mx'' JNull) (\<lambda>max_temp.
     seq (py_get temp_data ''av'' JNull) (\<lambda>avg_temp.
     seq (py_get sol_data ''PRE'' (JObj [])) (\<lambda>pressure_data.
     seq (py_get pressure_data ''av'' JNull) (\<lambda>avg_pressure.
     seq (py_get sol_data ''Season'' (JStr ''Unknown'')) (\<lambda>season_value.
     seq (py_get sol_data ''First_UTC'' JNull) (\<lambda>first_utc.
     seq (int_of_str sol_key) (\<lambda>n.
     Inr \<lparr>sol = n, min_temp_c = min_temp, max_temp_c = max_temp, avg_temp_c = avg_temp,
          pressure_pa = avg_pressure, season = season_value,
          earth_date = first_utc\<rparr>))))))))))"

text \<open>
  \<^verbatim>\<open>pd.DataFrame(weather_records).sort_values('sol', ascending=False)\<close>: the data frame
  is the list of its rows, each row holding the values of the dict that the loop appended
  (how pandas stores a \<^verbatim>\<open>None\<close> inside a numeric column is not modelled). pandas does not
  promise an order among rows of equal \<^verbatim>\<open>sol\<close>; the model keeps them in their order of
  insertion, and no theorem below depends on that choice.
\<close>

definition sort_values_sol_descending :: "weather_record list \<Rightarrow> weather_record list" where
  "sort_values_sol_descending rows = sort_key (\<lambda>r. - sol r) rows"

text \<open>
  The part of \<^verbatim>\<open>get_mars_weather\<close> that follows the request, from \<^verbatim>\<open>if not data\<close> to
  \<^verbatim>\<open>return df\<close>, applied to the value \<^verbatim>\<open>data\<close> that the gateway returned.
\<close>

definition weather_dataframe :: "json \<Rightarrow> weather_record list option outcome" where
  "weather_dataframe data =
     (if \<not> truthy data then returning [] None
      else
        and_then (pure_step (py_keys data)) (\<lambda>keys.
          let sol_keys = filter isdigit keys in
          if sol_keys = [] then returning [st_warning no_weather_message] None
          else
            and_then (pure_step (collect (weather_record_of data) sol_keys))
              (\<lambda>weather_records.
                 returning [] (Some (sort_values_sol_descending weather_records)))))"

definition get_mars_weather :: "network \<Rightarrow> weather_record list option outcome" where
  "get_mars_weather net =
     and_then
       (make_request net MARS_WEATHER_ENDPOINT
          (Some [(''feedtype'', ''json''), (''ver'', ''1.0'')]) None)
       weather_dataframe"

subsection \<open>Rover photos (\<^verbatim>\<open>NASAClient.get_rover_photos\<close>)\<close>

record photo =
  photo_id :: json
  img_src :: json
  camera_name :: string
  camera_abbr :: json
  photo_sol :: int
  photo_earth_date :: json
  rover :: string

text \<open>
  \<^verbatim>\<open>_format_camera_name\<close> applied to whatever \<^verbatim>\<open>img.get('instrument', 'Unknown')\<close> gave:
  a list or a dict cannot be looked up in \<^verbatim>\<open>camera_map\<close>, any other value that is not a
  string has no \<^verbatim>\<open>startswith\<close>.
\<close>

fun py_format_camera_name :: "json \<Rightarrow> py_error + string" where
  "py_format_camera_name (JStr s) = Inr (format_camera_name s)"
| "py_format_camera_name (JArr xs) = Inl TypeError"
| "py_format_camera_name (JObj kvs) = Inl TypeError"
| "py_format_camera_name x = Inl AttributeError"

text \<open>\<^verbatim>\<open>utc_timestamp.split('T')[0]\<close>.\<close>

fun split_T_first :: "json \<Rightarrow> py_error + json" where
  "split_T_first (JStr s) =
     (case split (CHR ''T'') s of [] \<Rightarrow> Inl IndexError | w # ws \<Rightarrow> Inr (JStr w))"
| "split_T_first x = Inl AttributeError"

text \<open>
  The loop \<^verbatim>\<open>for sol_info in reversed(sols)\<close>, given the reversed list; the result
  \<open>JNull\<close> is \<^verbatim>\<open>latest_sol = None\<close>.
\<close>

primrec latest_sol_scan :: "json list \<Rightarrow> py_error + json" where
  "latest_sol_scan [] = Inr JNull"
| "latest_sol_scan (sol_info # earlier) =
     seq (py_get sol_info ''num_images'' (JInt 0)) (\<lambda>num_images.
     seq (py_gt_zero num_images) (\<lambda>has_images.
       if has_images then py_getitem sol_info ''sol'' else latest_sol_scan earlier))"

text \<open>The body of the loop \<^verbatim>\<open>for img in images\<close>: the dict appended for one image.\<close>

definition format_photo :: "json \<Rightarrow> json \<Rightarrow> py_error + photo" where
  "format_photo latest_sol img =
     seq (py_get img ''urlList'' (JStr '''')) (\<lambda>img_url.
     seq (py_get img ''utc'' (JStr '''')) (\<lambda>utc_timestamp.
     seq (py_contains ''T'' utc_timestamp) (\<lambda>has_T.
     seq (if has_T then split_T_first utc_timestamp else Inr utc_timestamp) (\<lambda>date.
     seq (py_get img ''instrument'' (JStr ''Unknown'')) (\<lambda>instrument.
     seq (py_format_camera_name instrument) (\<lambda>name.
     seq (py_get img ''itemName'' (JStr ''unknown'')) (\<lambda>item_name.
     seq (py_get img ''sol'' latest_sol) (\<lambda>sol_value.
     seq (py_int sol_value) (\<lambda>n.
     Inr \<lparr>photo_id = item_name, img_src = img_url, camera_name = name,
          camera_abbr = instrument, photo_sol = n, photo_earth_date = date,
          rover = ''Curiosity''\<rparr>)))))))))"

text \<open>\<^verbatim>\<open>get_rover_photos\<close> from \<^verbatim>\<open>sol_images_url = ...\<close> on, given \<^verbatim>\<open>latest_sol\<close>.\<close>

definition sol_photos :: "network \<Rightarrow> json \<Rightarrow> int \<Rightarrow> photo list option outcome" where
  "sol_photos net latest_sol num_photos =
     and_then (make_request net (MSL_SOL_IMAGES_URL_TEMPLATE latest_sol) None None)
       (\<lambda>sol_data.
     and_then
       (pure_step
          (if \<not> truthy sol_data then Inr True
           else seq (py_contains ''images'' sol_data) (\<lambda>present. Inr (\<not> present))))
       (\<lambda>unusable.
     if unusable then returning [st_error (no_sol_images_message latest_sol)] None
     else
       and_then (pure_step (seq (py_getitem sol_data ''images'') (py_slice_to num_photos)))
         (\<lambda>images.
       if \<not> truthy images
       then returning [st_warning (no_images_found_message latest_sol)] None
       else
         and_then (pure_step (seq (py_iter images) (collect (format_photo latest_sol))))
           (\<lambda>formatted_photos. returning [] (Some formatted_photos)))))"

definition get_rover_photos :: "network \<Rightarrow> string \<Rightarrow> int \<Rightarrow> photo list option outcome" where
  "get_rover_photos net rover_name num_photos =
     (let rover_name = lower rover_name in
      if rover_name \<noteq> ''curiosity''
      then returning [st_warning (rover_not_available_message (title rover_name))] None
      else
        and_then (make_request net MSL_MANIFEST_URL None None) (\<lambda>manifest_data.
        if \<not> truthy manifest_data then returning [st_error no_manifest_message] None
        else
          and_then (pure_step (py_get manifest_data ''sols'' (JArr []))) (\<lambda>sols.
          if \<not> truthy sols then returning [st_warning no_image_data_message] None
          else
            and_then (pure_step (seq (py_reversed sols) latest_sol_scan)) (\<lambda>latest_sol.
            if latest_sol = JNull then returning [st_warning no_recent_photos_message] None
            else sol_photos net latest_sol num_photos))))"

subsection \<open>Payloads as the client expects them\<close>

text \<open>
  The theorems about the weather feed are stated for payloads of the shape the InSight
  service documents: the value under a day key is an object, and its members \<^verbatim>\<open>AT\<close> and
  \<^verbatim>\<open>PRE\<close> are objects when they are present. Keys are ASCII text, the part of
  \<^verbatim>\<open>str.isdigit\<close> that the model covers, and a day key has at most \<open>int_max_str_digits\<close>
  digits, so that \<^verbatim>\<open>int\<close> converts it.
\<close>

definition ascii :: "string \<Rightarrow> bool" where
  "ascii s = list_all (\<lambda>c. (of_char c :: nat) < 128) s"

definition object_or_missing :: "(string \<times> json) list \<Rightarrow> string \<Rightarrow> bool" where
  "object_or_missing entry key =
     (case map_of entry key of
        None \<Rightarrow> True
      | Some (JObj members) \<Rightarrow> True
      | Some other \<Rightarrow> False)"

fun day_entry_ok :: "json \<Rightarrow> bool" where
  "day_entry_ok (JObj entry) = (object_or_missing entry ''AT'' \<and> object_or_missing entry ''PRE'')"
| "day_entry_ok other = False"

definition weather_payload_ok :: "(string \<times> json) list \<Rightarrow> bool" where
  "weather_payload_ok items =
     (list_all (\<lambda>item. ascii (fst item)) items
      \<and> list_all (\<lambda>key. length key \<le> int_max_str_digits) (filter isdigit (map fst items))
      \<and> list_all (\<lambda>key. case map_of items key of None \<Rightarrow> False | Some entry \<Rightarrow> day_entry_ok entry)
           (filter isdigit (map fst items)))"

text \<open>The members of a sub-object of a day entry; none when the entry has no such sub-object.\<close>

definition sub_object :: "(string \<times> json) list \<Rightarrow> string \<Rightarrow> (string \<times> json) list" where
  "sub_object entry key = (case map_of entry key of Some (JObj members) \<Rightarrow> members | other \<Rightarrow> [])"

text \<open>The one request \<^verbatim>\<open>get_mars_weather\<close> sends.\<close>

definition weather_request :: http_request where
  "weather_request =
     \<lparr>url = MARS_WEATHER_ENDPOINT, params = Some [(''feedtype'', ''json''), (''ver'', ''1.0'')],
      timeout = 10\<rparr>"

text \<open>A feed with two days, the second without temperatures and season, and the metadata.\<close>

definition sample_weather :: "(string \<times> json) list" where
  "sample_weather =
     [(''675'',
       JObj [(''AT'', JObj [(''av'', JFloat (- 62314 / 1000)), (''mn'', JFloat (- 96872 / 1000)),
                            (''mx'', JFloat (- 15908 / 1000))]),
             (''PRE'', JObj [(''av'', JFloat (750563 / 1000))]),
             (''Season'', JStr ''fall''),
             (''First_UTC'', JStr ''2020-10-19T18:32:20Z'')]),
      (''676'',
       JObj [(''PRE'', JObj [(''ct'', JInt 887776)]),
             (''First_UTC'', JStr ''2020-10-20T19:11:55Z'')]),
      (''sol_keys'', JArr [JStr ''675'', JStr ''676'']),
      (''validity_checks'', JObj [(''sol_hours_required'', JInt 18)])]"

text \<open>The row expected for a day key of a payload of that shape.\<close>

definition day_row :: "(string \<times> json) list \<Rightarrow> string \<Rightarrow> weather_record" where
  "day_row items key =
     (let entry = (case map_of items key of Some (JObj members) \<Rightarrow> members | other \<Rightarrow> [])
      in \<lparr>sol = int (decimal_value key),
         min_temp_c = dict_get (sub_object entry ''AT'') ''mn'' JNull,
         max_temp_c = dict_get (sub_object entry ''AT'') ''mx'' JNull,
         avg_temp_c = dict_get (sub_object entry ''AT'') ''av'' JNull,
         pressure_pa = dict_get (sub_object entry ''PRE'') ''av'' JNull,
         season = dict_get entry ''Season'' (JStr ''Unknown''),
         earth_date = dict_get entry ''First_UTC'' JNull\<rparr>)"

text \<open>A network on which the weather endpoint answers with a given body.\<close>

definition weather_service :: "json \<Rightarrow> network" where
  "weather_service body = canned [(MARS_WEATHER_ENDPOINT, Returns body)]"

text \<open>A feed that holds the metadata alone, as the service answers since the mission ended.\<close>

definition metadata_only :: "(string \<times> json) list" where
  "metadata_only = [(''sol_keys'', JArr []), (''validity_checks'', JObj [])]"

text \<open>
  The theorems about rover photos are stated for a manifest whose day summaries are
  objects with an integer \<^verbatim>\<open>sol\<close> and an integer \<^verbatim>\<open>num_images\<close> (which may be missing), and
  for image entries that are objects in which \<^verbatim>\<open>utc\<close> and \<^verbatim>\<open>instrument\<close> are strings and
  \<^verbatim>\<open>sol\<close> is an integer, where these members are present.
\<close>

fun day_summary_ok :: "json \<Rightarrow> bool" where
  "day_summary_ok (JObj summary) =
     ((case map_of summary ''num_images'' of
         None \<Rightarrow> True
       | Some (JInt n) \<Rightarrow> True
       | Some other \<Rightarrow> False)
      \<and> (case map_of summary ''sol'' of Some (JInt n) \<Rightarrow> True | other \<Rightarrow> False))"
| "day_summary_ok other = False"

text \<open>The image count and the sol of a day summary.\<close>

fun image_count :: "json \<Rightarrow> int" where
  "image_count (JObj summary) =
     (case map_of summary ''num_images'' of Some (JInt n) \<Rightarrow> n | other \<Rightarrow> 0)"
| "image_count other = 0"

fun day_sol :: "json \<Rightarrow> json" where
  "day_sol (JObj summary) = dict_get summary ''sol'' JNull"
| "day_sol other = JNull"

fun image_entry_ok :: "json \<Rightarrow> bool" where
  "image_entry_ok (JObj img) =
     ((case map_of img ''utc'' of None \<Rightarrow> True | Some (JStr s) \<Rightarrow> True | Some other \<Rightarrow> False)
      \<and> (case map_of img ''instrument'' of
            None \<Rightarrow> True
          | Some (JStr s) \<Rightarrow> True
          | Some other \<Rightarrow> False)
      \<and> (case map_of img ''sol'' of None \<Rightarrow> True | Some (JInt n) \<Rightarrow> True | Some other \<Rightarrow> False))"
| "image_entry_ok other = False"

text \<open>The timestamp of an image entry: the string under \<^verbatim>\<open>utc\<close>, empty when there is none.\<close>

fun utc_of :: "json \<Rightarrow> string" where
  "utc_of (JObj img) = (case map_of img ''utc'' of Some (JStr s) \<Rightarrow> s | other \<Rightarrow> '''')"
| "utc_of other = ''''"

text \<open>The two requests \<^verbatim>\<open>get_rover_photos\<close> can send.\<close>

definition manifest_request :: http_request where
  "manifest_request = \<lparr>url = MSL_MANIFEST_URL, params = None, timeout = 10\<rparr>"

definition sol_images_request :: "json \<Rightarrow> http_request" where
  "sol_images_request latest_sol =
     \<lparr>url = MSL_SOL_IMAGES_URL_TEMPLATE latest_sol, params = None, timeout = 10\<rparr>"

text \<open>A rover name with some of its letters in upper case.\<close>

definition capitalised :: "bool list \<Rightarrow> string \<Rightarrow> string" where
  "capitalised upper name = map (\<lambda>(up, c). if up then upper_char c else c) (zip upper name)"

text \<open>
  The manifest of three days of which the middle one alone has images, the images of a
  day, and a network that serves a manifest and the images of one day.
\<close>

definition sample_days :: "json list" where
  "sample_days =
     [JObj [(''sol'', JInt 10), (''num_images'', JInt 0)],
      JObj [(''sol'', JInt 11), (''num_images'', JInt 3)],
      JObj [(''sol'', JInt 12), (''num_images'', JInt 0)]]"

definition sample_images :: "json list" where
  "sample_images =
     [JObj [(''itemName'', JStr ''NLA_398479541EDR''),
            (''urlList'', JStr ''https://mars.nasa.gov/msl-raw-images/NLA_398479541EDR.JPG''),
            (''instrument'', JStr ''NAV_LEFT_A''),
            (''sol'', JInt 11),
            (''utc'', JStr ''2012-08-17T05:11:02Z'')],
      JObj [(''itemName'', JStr ''0011ML0000480000''),
            (''urlList'', JStr ''https://mars.nasa.gov/msl-raw-images/0011ML0000480000.jpg''),
            (''instrument'', JStr ''MAST_LEFT''),
            (''utc'', JStr ''2012-08-17'')],
      JObj [(''itemName'', JStr ''CR0_398480000EDR''),
            (''instrument'', JStr ''CHEMCAM_RMI''),
            (''sol'', JInt 11),
            (''utc'', JStr ''2012-08-17T05:20:00Z'')]]"

definition rover_service :: "json \<Rightarrow> json \<Rightarrow> json \<Rightarrow> network" where
  "rover_service manifest latest_sol sol_data =
     canned [(MSL_MANIFEST_URL, Returns manifest),
             (MSL_SOL_IMAGES_URL_TEMPLATE latest_sol, Returns sol_data)]"

definition sample_rover_service :: network where
  "sample_rover_service =
     rover_service (JObj [(''sols'', JArr sample_days)]) (JInt 11)
       (JObj [(''images'', JArr sample_images)])"

text \<open>The record expected for an image entry of that shape, given the sol of the day.\<close>

definition photo_of :: "int \<Rightarrow> json \<Rightarrow> photo" where
  "photo_of latest img =
     (let entry = (case img of JObj members \<Rightarrow> members | other \<Rightarrow> []);
          instrument = dict_get entry ''instrument'' (JStr ''Unknown'')
      in \<lparr>photo_id = dict_get entry ''itemName'' (JStr ''unknown''),
          img_src = dict_get entry ''urlList'' (JStr ''''),
          camera_name = format_camera_name (case instrument of JStr s \<Rightarrow> s | other \<Rightarrow> ''''),
          camera_abbr = instrument,
          photo_sol = (case map_of entry ''sol'' of Some (JInt k) \<Rightarrow> k | other \<Rightarrow> latest),
          photo_earth_date = JStr (takeWhile (\<lambda>c. c \<noteq> CHR ''T'') (utc_of img)),
          rover = ''Curiosity''\<rparr>)"

text \<open>Two days without images, and a network that serves a manifest of given days only.\<close>

definition idle_days :: "json list" where
  "idle_days = [JObj [(''sol'', JInt 3), (''num_images'', JInt 0)], JObj [(''sol'', JInt 4)]]"

definition manifest_service :: "json list \<Rightarrow> network" where
  "manifest_service days = canned [(MSL_MANIFEST_URL, Returns (JObj [(''sols'', JArr days)]))]"

section \<open>Properties\<close>

subsection \<open>Sequencing\<close>

lemma seq_Inr [simp]: "seq (Inr v) f = f v"
  by (simp add: seq_def)

lemma seq_Inl [simp]: "seq (Inl e) f = Inl e"
  by (simp add: seq_def)

lemma and_then_returning [simp]: "and_then (evs, Inr v) f = (evs @ fst (f v), snd (f v))"
  by (simp add: and_then_def)

lemma and_then_raising [simp]: "and_then (evs, Inl e) f = (evs, Inl e)"
  by (simp add: and_then_def)

lemma requests_of_append: "requests_of (xs @ ys) = requests_of xs @ requests_of ys"
  by (induction xs rule: requests_of.induct) auto

lemma and_then_requests:
  "requests_of (fst (and_then m f))
     = requests_of (fst m)
       @ (case snd m of Inl e \<Rightarrow> [] | Inr v \<Rightarrow> requests_of (fst (f v)))"
  by (simp add: and_then_def requests_of_append split: sum.splits)

subsection \<open>Temperature conversion\<close>

text \<open>
  Claim C8. Converting a Celsius value to Fahrenheit and back gives the value again, exactly
  in exact arithmetic; the two conversions are \<open>c * 9 / 5 + 32\<close> and \<open>(f - 32) * 5 / 9\<close>;
  both send the absent value \<open>None\<close> to \<open>None\<close>.
\<close>

theorem celsius_fahrenheit_round_trip:
  "fahrenheit_to_celsius (celsius_to_fahrenheit (Some c)) = Some c
   \<and> celsius_to_fahrenheit (Some c) = Some (c * 9 / 5 + 32)
   \<and> fahrenheit_to_celsius (Some f) = Some ((f - 32) * 5 / 9)
   \<and> celsius_to_fahrenheit None = None
   \<and> fahrenheit_to_celsius None = None"
  by (simp add: celsius_to_fahrenheit_def fahrenheit_to_celsius_def)

subsection \<open>Display formats\<close>

lemma round_half_even_close: "\<bar>of_int (round_half_even x) - x\<bar> \<le> 1 / 2"
  unfolding round_half_even_def Let_def by (auto simp: abs_le_iff)

lemma isdigit_char_of: "n < 10 \<Longrightarrow> isdigit_char (char_of (48 + n :: nat))"
  by (simp add: isdigit_char_def)

lemma digits_small: "n < 10 \<Longrightarrow> digits n = [char_of (48 + n)]"
  by (subst digits.simps) simp

lemma digits_all_digit: "list_all isdigit_char (digits n)"
proof (induction n rule: digits.induct)
  case (1 n)
  show ?case
  proof (cases "n < 10")
    case True
    then show ?thesis by (simp add: isdigit_char_of digits_small)
  next
    case False
    with 1 show ?thesis by (subst digits.simps) (simp add: isdigit_char_of)
  qed
qed

lemma digits_not_empty: "digits n \<noteq> []"
  by (subst digits.simps) simp

lemma format_f_one_decimal:
  "\<exists>whole d. format_f 1 x = (if x < 0 then ''-'' else '''') @ whole @ ''.'' @ [d]
     \<and> whole \<noteq> [] \<and> list_all isdigit_char whole \<and> isdigit_char d"
proof -
  define m where "m = nat (round_half_even (\<bar>x\<bar> * 10))"
  have small: "m mod 10 < 10" by simp
  have last_digit: "digits (m mod 10) = [char_of (48 + m mod 10)]"
    using small by (rule digits_small)
  have "format_f 1 x
    = (if x < 0 then ''-'' else '''') @ digits (m div 10) @ ''.'' @ [char_of (48 + m mod 10)]"
    using last_digit by (simp add: format_f_def Let_def m_def)
  then show ?thesis
    using digits_all_digit [of "m div 10"] isdigit_char_of [OF small] digits_not_empty
    by blast
qed

lemma format_f_integer:
  "format_f 0 x = (if x < 0 then ''-'' else '''') @ digits (nat (round_half_even \<bar>x\<bar>))"
  by (simp add: format_f_def Let_def)

text \<open>
  Claim C9. \<open>format_temperature\<close> and \<open>format_pressure\<close> give \<open>N/A\<close> for an absent
  value, whatever the unit. For a present value \<open>format_temperature\<close> gives the value with
  one decimal followed by a three-byte symbol and \<open>C\<close> (unit \<open>C\<close>) or \<open>F\<close> (any other
  unit), and \<open>format_pressure\<close> gives the value rounded to an integer followed by
  \<open>Pa\<close>. The symbol the source writes is the character U+C9F8 and not the degree sign:
  \<open>format_temperature(-63.5, "C")\<close> does not end in the degree sign and \<open>C\<close>.
\<close>

theorem format_temperature_symbol_bytes:
  "format_temperature None unit = ''N/A''
   \<and> format_pressure None = ''N/A''
   \<and> format_temperature (Some t) unit
       = format_f 1 t @ helpers_symbol_prefix @ (if unit = ''C'' then ''C'' else ''F'')
   \<and> format_pressure (Some p) = format_f 0 p @ '' Pa''
   \<and> (\<exists>whole d. format_f 1 t = (if t < 0 then ''-'' else '''') @ whole @ ''.'' @ [d]
         \<and> whole \<noteq> [] \<and> list_all isdigit_char whole \<and> isdigit_char d)
   \<and> format_f 0 p = (if p < 0 then ''-'' else '''') @ digits (nat (round_half_even \<bar>p\<bar>))
   \<and> \<bar>of_int (round_half_even \<bar>p\<bar>) - \<bar>p\<bar>\<bar> \<le> 1 / 2
   \<and> format_temperature (Some (- 127 / 2)) ''C''
       = ''-63.5'' @ [CHR 0xEC, CHR 0xA7, CHR 0xB8] @ ''C''
   \<and> format_temperature (Some (- 127 / 2)) ''C'' \<noteq> ''-63.5'' @ degree_sign @ ''C''"
proof -
  have e: "format_temperature (Some (- 127 / 2)) ''C''
       = ''-63.5'' @ [CHR 0xEC, CHR 0xA7, CHR 0xB8] @ ''C''"
    by code_simp
  have shown: "format_temperature None unit = ''N/A''
      \<and> format_pressure None = ''N/A''
      \<and> format_temperature (Some t) unit
          = format_f 1 t @ helpers_symbol_prefix @ (if unit = ''C'' then ''C'' else ''F'')
      \<and> format_pressure (Some p) = format_f 0 p @ '' Pa''"
    by (simp add: format_temperature_def format_pressure_def)
  have differs: "''-63.5'' @ [CHR 0xEC, CHR 0xA7, CHR 0xB8] @ ''C''
      \<noteq> ''-63.5'' @ degree_sign @ ''C''"
    by (simp add: degree_sign_def)
  from shown format_f_one_decimal [of t] format_f_integer [of p]
    round_half_even_close [of "\<bar>p\<bar>"] e differs
  show ?thesis
    by (simp only: simp_thms)
qed

subsection \<open>Instrument names\<close>

lemma startswith_iff: "startswith s key \<longleftrightarrow> (\<exists>rest. s = key @ rest)"
  by (induction s key rule: startswith.induct) auto

lemma partial_match_none:
  "partial_match s items = None \<longleftrightarrow> (\<forall>entry \<in> set items. \<not> startswith s (fst entry))"
  by (induction items) (auto split: if_splits)

lemma partial_match_first:
  "\<lbrakk>startswith s key; \<forall>entry \<in> set before. \<not> startswith s (fst entry)\<rbrakk>
   \<Longrightarrow> partial_match s (before @ (key, label) # after) = Some label"
  by (induction before) auto

text \<open>
  Claim C3. \<open>format_camera_name\<close> is a total function from strings to strings: applied to
  a string it raises nothing. It resolves a code in this order: the label of the code in
  \<open>camera_map\<close>; else the label of the first entry of \<open>camera_map\<close>, in the order of the
  table, whose key the code starts with; else the code with underscores replaced by spaces,
  in title case. \<open>MAST_LEFT\<close> and \<open>MAST_LEFT_B\<close> both give \<open>Mast Camera - Left\<close>, and
  \<open>XYZ_FOO\<close> gives \<open>Xyz Foo\<close>.
\<close>

theorem format_camera_name_policy:
  "(\<forall>label. map_of camera_map code = Some label \<longrightarrow> format_camera_name code = label)
   \<and> (\<forall>before key label after.
         map_of camera_map code = None \<and> camera_map = before @ (key, label) # after
         \<and> startswith code key \<and> (\<forall>entry \<in> set before. \<not> startswith code (fst entry))
         \<longrightarrow> format_camera_name code = label)
   \<and> (map_of camera_map code = None
        \<and> (\<forall>entry \<in> set camera_map. \<not> startswith code (fst entry))
         \<longrightarrow> format_camera_name code = title (replace (CHR ''_'') (CHR '' '') code))
   \<and> (\<forall>key. startswith code key \<longleftrightarrow> (\<exists>rest. code = key @ rest))
   \<and> py_format_camera_name (JStr code) = Inr (format_camera_name code)
   \<and> format_camera_name ''MAST_LEFT'' = ''Mast Camera - Left''
   \<and> format_camera_name ''MAST_LEFT_B'' = ''Mast Camera - Left''
   \<and> format_camera_name ''XYZ_FOO'' = ''Xyz Foo''"
proof (intro conjI allI impI)
  fix label
  assume "map_of camera_map code = Some label"
  then show "format_camera_name code = label"
    by (simp add: format_camera_name_def)
next
  fix before key label after
  assume h: "map_of camera_map code = None \<and> camera_map = before @ (key, label) # after
         \<and> startswith code key \<and> (\<forall>entry \<in> set before. \<not> startswith code (fst entry))"
  then have "partial_match code camera_map = Some label"
    using partial_match_first [of code key before label after] by simp
  with h show "format_camera_name code = label"
    by (simp add: format_camera_name_def)
next
  assume h: "map_of camera_map code = None
    \<and> (\<forall>entry \<in> set camera_map. \<not> startswith code (fst entry))"
  then have "partial_match code camera_map = None"
    by (simp add: partial_match_none)
  with h show "format_camera_name code = title (replace (CHR ''_'') (CHR '' '') code)"
    by (simp add: format_camera_name_def)
next
  fix key
  show "startswith code key \<longleftrightarrow> (\<exists>rest. code = key @ rest)"
    by (rule startswith_iff)
next
  show "py_format_camera_name (JStr code) = Inr (format_camera_name code)" by simp
  show "format_camera_name ''MAST_LEFT'' = ''Mast Camera - Left''" by code_simp
  show "format_camera_name ''MAST_LEFT_B'' = ''Mast Camera - Left''" by code_simp
  show "format_camera_name ''XYZ_FOO'' = ''Xyz Foo''" by code_simp
qed

theorem format_camera_name_policy_witness:
  "map_of camera_map ''MAHLI'' = Some ''Mars Hand Lens Imager''
   \<and> format_camera_name ''MAHLI'' = ''Mars Hand Lens Imager''
   \<and> map_of camera_map ''NAV_LEFT_BX'' = None
   \<and> camera_map = [] @ (''NAV_LEFT'', ''Navigation Camera - Left'') # tl camera_map
   \<and> startswith ''NAV_LEFT_BX'' ''NAV_LEFT''
   \<and> format_camera_name ''NAV_LEFT_BX'' = ''Navigation Camera - Left''
   \<and> map_of camera_map ''RHAZ_RIGHT_A'' = None
   \<and> camera_map = take 7 camera_map
        @ (''RHAZ_RIGHT'', ''Rear Hazard Avoidance Camera - Right'') # drop 8 camera_map
   \<and> list_all (\<lambda>entry. \<not> startswith ''RHAZ_RIGHT_A'' (fst entry)) (take 7 camera_map)
   \<and> format_camera_name ''RHAZ_RIGHT_A'' = ''Rear Hazard Avoidance Camera - Right''
   \<and> map_of camera_map ''sky cam_2'' = None
   \<and> list_all (\<lambda>entry. \<not> startswith ''sky cam_2'' (fst entry)) camera_map
   \<and> format_camera_name ''sky cam_2'' = ''Sky Cam 2''"
proof -
  have a: "map_of camera_map ''MAHLI'' = Some ''Mars Hand Lens Imager''"
    by (simp add: camera_map_def)
  have b1: "map_of camera_map ''NAV_LEFT_BX'' = None"
    by (simp add: camera_map_def)
  have b2: "camera_map = [] @ (''NAV_LEFT'', ''Navigation Camera - Left'') # tl camera_map"
    by (simp add: camera_map_def)
  have b3: "startswith ''NAV_LEFT_BX'' ''NAV_LEFT''"
    by simp
  have c1: "map_of camera_map ''RHAZ_RIGHT_A'' = None"
    by (simp add: camera_map_def)
  have c2: "camera_map = take 7 camera_map
      @ (''RHAZ_RIGHT'', ''Rear Hazard Avoidance Camera - Right'') # drop 8 camera_map"
    by (simp add: camera_map_def)
  have c3: "\<forall>entry \<in> set (take 7 camera_map). \<not> startswith ''RHAZ_RIGHT_A'' (fst entry)"
    by (simp add: camera_map_def)
  have c4: "startswith ''RHAZ_RIGHT_A'' ''RHAZ_RIGHT''"
    by simp
  have d1: "map_of camera_map ''sky cam_2'' = None"
    by (simp add: camera_map_def)
  have d2: "\<forall>entry \<in> set camera_map. \<not> startswith ''sky cam_2'' (fst entry)"
    by (simp add: camera_map_def)
  have d3: "title (replace (CHR ''_'') (CHR '' '') ''sky cam_2'') = ''Sky Cam 2''"
    by code_simp
  have b4: "\<forall>entry \<in> set []. \<not> startswith ''NAV_LEFT_BX'' (fst entry)"
    by simp
  note first = format_camera_name_policy [THEN conjunct1, rule_format]
  note second = format_camera_name_policy [THEN conjunct2, THEN conjunct1, rule_format]
  note third = format_camera_name_policy [THEN conjunct2, THEN conjunct2, THEN conjunct1,
      rule_format]
  have ra: "format_camera_name ''MAHLI'' = ''Mars Hand Lens Imager''"
    using a by (rule first)
  have rb: "format_camera_name ''NAV_LEFT_BX'' = ''Navigation Camera - Left''"
    by (rule second [OF conjI [OF b1 conjI [OF b2 conjI [OF b3 b4]]]])
  have rc: "format_camera_name ''RHAZ_RIGHT_A'' = ''Rear Hazard Avoidance Camera - Right''"
    by (rule second [OF conjI [OF c1 conjI [OF c2 conjI [OF c4 c3]]]])
  have "format_camera_name ''sky cam_2''
      = title (replace (CHR ''_'') (CHR '' '') ''sky cam_2'')"
    by (rule third [OF conjI [OF d1 d2]])
  then have rd: "format_camera_name ''sky cam_2'' = ''Sky Cam 2''"
    by (simp only: d3)
  from c3 have c3': "list_all (\<lambda>entry. \<not> startswith ''RHAZ_RIGHT_A'' (fst entry))
      (take 7 camera_map)"
    by (simp only: list_all_iff)
  from d2 have d2': "list_all (\<lambda>entry. \<not> startswith ''sky cam_2'' (fst entry)) camera_map"
    by (simp only: list_all_iff)
  from a ra b1 b2 b3 rb c1 c2 c3' rc d1 d2' rd show ?thesis
    by (intro conjI)
qed

subsection \<open>Weather\<close>

lemma dropWhile_keeps: "s \<noteq> [] \<Longrightarrow> \<not> P (hd s) \<Longrightarrow> dropWhile P s = s"
  by (cases s) auto

lemma digit_not_space: "isdigit_char c \<Longrightarrow> \<not> isspace_char c"
  by (auto simp: isdigit_char_def isspace_char_def)

lemma digit_not_sign: "isdigit_char c \<Longrightarrow> c \<noteq> CHR ''-'' \<and> c \<noteq> CHR ''+'' \<and> c \<noteq> CHR ''_''"
  by (auto simp: isdigit_char_def)

lemma strip_digits: "isdigit s \<Longrightarrow> strip s = s"
proof -
  assume d: "isdigit s"
  then have ne: "s \<noteq> []" and all: "\<forall>c \<in> set s. isdigit_char c"
    by (auto simp: isdigit_def list_all_iff)
  from ne all have "\<not> isspace_char (hd s)"
    by (simp add: digit_not_space)
  with ne have a: "dropWhile isspace_char s = s"
    by (rule dropWhile_keeps)
  from ne all have "\<not> isspace_char (hd (rev s))"
    by (simp add: hd_rev digit_not_space)
  with ne have "dropWhile isspace_char (rev s) = rev s"
    by (simp add: dropWhile_keeps)
  with a show ?thesis
    by (simp add: strip_def)
qed

lemma split_without_separator: "sep \<notin> set s \<Longrightarrow> split sep s = [s]"
  by (induction s) auto

text \<open>What \<^verbatim>\<open>int\<close> does with a string of digits depends on its length alone.\<close>

lemma int_of_str_isdigit:
  assumes "isdigit s"
  shows "int_of_str s
    = (if length s \<le> int_max_str_digits then Inr (int (decimal_value s)) else Inl ValueError)"
proof -
  from assms have ne: "s \<noteq> []" and all: "\<forall>c \<in> set s. isdigit_char c"
    by (auto simp: isdigit_def list_all_iff)
  from ne all have hd: "hd s \<noteq> CHR ''-''" "hd s \<noteq> CHR ''+''"
    using digit_not_sign [of "hd s"] by simp_all
  from all have "CHR ''_'' \<notin> set s"
    using digit_not_sign by blast
  then have "split (CHR ''_'') s = [s]"
    by (rule split_without_separator)
  with assms hd show ?thesis
    by (simp add: int_of_str_def strip_digits Let_def)
qed

lemma int_of_str_digits:
  "isdigit s \<Longrightarrow> length s \<le> int_max_str_digits \<Longrightarrow> int_of_str s = Inr (int (decimal_value s))"
  by (simp add: int_of_str_isdigit)

lemma int_of_str_overlong:
  "isdigit s \<Longrightarrow> int_max_str_digits < length s \<Longrightarrow> int_of_str s = Inl ValueError"
  by (simp add: int_of_str_isdigit)

lemma collect_all:
  "\<forall>x \<in> set xs. f x = Inr (g x) \<Longrightarrow> collect f xs = Inr (map g xs)"
  by (induction xs) auto

text \<open>The record of a day whose entry has the expected shape.\<close>

lemma weather_record_of_day:
  assumes "isdigit key" and "map_of items key = Some (JObj entry)"
    and "object_or_missing entry ''AT''" and "object_or_missing entry ''PRE''"
    and "length key \<le> int_max_str_digits"
  shows "weather_record_of (JObj items) key =
    Inr \<lparr>sol = int (decimal_value key),
         min_temp_c = dict_get (sub_object entry ''AT'') ''mn'' JNull,
         max_temp_c = dict_get (sub_object entry ''AT'') ''mx'' JNull,
         avg_temp_c = dict_get (sub_object entry ''AT'') ''av'' JNull,
         pressure_pa = dict_get (sub_object entry ''PRE'') ''av'' JNull,
         season = dict_get entry ''Season'' (JStr ''Unknown''),
         earth_date = dict_get entry ''First_UTC'' JNull\<rparr>"
proof -
  from assms(3) have at: "py_get (dict_get entry ''AT'' (JObj [])) k d
      = Inr (dict_get (sub_object entry ''AT'') k d)" for k d
    by (auto simp: object_or_missing_def dict_get_def sub_object_def
        split: option.splits json.splits)
  from assms(4) have pre: "py_get (dict_get entry ''PRE'' (JObj [])) k d
      = Inr (dict_get (sub_object entry ''PRE'') k d)" for k d
    by (auto simp: object_or_missing_def dict_get_def sub_object_def
        split: option.splits json.splits)
  show ?thesis
    using assms(1,2,5) by (simp add: weather_record_of_def at pre int_of_str_digits)
qed

lemma weather_rows_ok:
  assumes "weather_payload_ok items"
  shows "collect (weather_record_of (JObj items)) (filter isdigit (map fst items))
    = Inr (map (day_row items) (filter isdigit (map fst items)))"
proof (rule collect_all, rule ballI)
  fix key
  assume k: "key \<in> set (filter isdigit (map fst items))"
  with assms obtain v where v: "map_of items key = Some v" "day_entry_ok v"
    by (auto simp: weather_payload_ok_def list_all_iff split: option.splits)
  then obtain entry where e: "v = JObj entry"
    by (cases v) auto
  from k assms have short: "length key \<le> int_max_str_digits"
    by (auto simp: weather_payload_ok_def list_all_iff)
  from k have "isdigit key" by simp
  with v e short show "weather_record_of (JObj items) key = Inr (day_row items key)"
    by (simp add: weather_record_of_day day_row_def)
qed

lemma weather_dataframe_rows:
  assumes "weather_payload_ok items" and "filter isdigit (map fst items) \<noteq> []"
  shows "weather_dataframe (JObj items)
    = ([], Inr (Some (sort_values_sol_descending
          (map (day_row items) (filter isdigit (map fst items))))))"
proof -
  from assms(2) have "items \<noteq> []" by auto
  with assms show ?thesis
    by (simp add: weather_dataframe_def pure_step_def returning_def weather_rows_ok Let_def)
qed

lemma sort_values_mset: "mset (sort_values_sol_descending rows) = mset rows"
  by (simp add: sort_values_sol_descending_def)

lemma sort_values_descending: "sorted (rev (map sol (sort_values_sol_descending rows)))"
proof -
  have "sorted (map (\<lambda>r. - sol r) (sort_values_sol_descending rows))"
    by (simp add: sort_values_sol_descending_def)
  then have "sorted (map uminus (map sol (sort_values_sol_descending rows)))"
    by (simp add: comp_def)
  then show ?thesis
    by (simp add: sorted_wrt_rev sorted_map sorted_wrt_map)
qed

lemma get_mars_weather_answered:
  "net weather_request = Returns data \<Longrightarrow>
   get_mars_weather net
     = (HttpGet weather_request # fst (weather_dataframe data), snd (weather_dataframe data))"
  by (simp add: get_mars_weather_def make_request_def weather_request_def
      timeout_or_default_def)

lemma weather_service_answers: "weather_service body weather_request = Returns body"
  by (simp add: weather_service_def canned_def weather_request_def)

lemma day_row_sol: "map sol (map (day_row items) keys) = map (\<lambda>key. int (decimal_value key)) keys"
  by (simp add: day_row_def Let_def)

text \<open>
  Claim C1, as amended. Let the weather endpoint answer with a JSON object whose keys are
  ASCII text, whose keys made of decimal digits have at most 4300 digits (the longest
  numeral that \<open>int\<close> converts) and whose values under keys made of decimal digits are
  objects, with objects under \<open>AT\<close> and \<open>PRE\<close> where these are present. Then
  \<open>get_mars_weather\<close> sends its one request and
  \<^item> returns \<open>None\<close> with no notice when the object is empty;
  \<^item> returns \<open>None\<close> with the warning that no weather data is available when the object
    is not empty and no key is a string of digits;
  \<^item> otherwise returns one row for each key that is a string of digits, with the number
    the key denotes (which is what \<open>int\<close> gives for a string of at most 4300 digits) as its
    \<open>sol\<close>, in descending order of \<open>sol\<close>; every other key is ignored.

  For the keys \<open>0\<close>, \<open>1\<close>, \<open>sol_keys\<close> and \<open>validity_checks\<close> it returns two rows, the row
  of sol 1 first.
\<close>

theorem get_mars_weather_rows:
  assumes "net weather_request = Returns (JObj items)" and "weather_payload_ok items"
  shows
    "(items = [] \<longrightarrow> get_mars_weather net = ([HttpGet weather_request], Inr None))
   \<and> (items \<noteq> [] \<and> filter isdigit (map fst items) = []
        \<longrightarrow> get_mars_weather net
            = ([HttpGet weather_request, st_warning no_weather_message], Inr None))
   \<and> (filter isdigit (map fst items) \<noteq> []
        \<longrightarrow> (\<exists>rows. get_mars_weather net = ([HttpGet weather_request], Inr (Some rows))
              \<and> length rows = length (filter isdigit (map fst items))
              \<and> mset (map sol rows)
                  = mset (map (\<lambda>key. int (decimal_value key)) (filter isdigit (map fst items)))
              \<and> sorted (rev (map sol rows))))
   \<and> (\<forall>key. isdigit key \<and> length key \<le> int_max_str_digits
          \<longrightarrow> int_of_str key = Inr (int (decimal_value key)))
   \<and> (\<forall>day0 day1 sol_keys validity_checks.
         items = [(''0'', day0), (''1'', day1), (''sol_keys'', sol_keys),
                  (''validity_checks'', validity_checks)]
         \<longrightarrow> (\<exists>row1 row0. get_mars_weather net
                  = ([HttpGet weather_request], Inr (Some [row1, row0]))
                \<and> sol row1 = 1 \<and> sol row0 = 0))"
proof (intro conjI impI allI)
  assume "items = []"
  with assms(1) show "get_mars_weather net = ([HttpGet weather_request], Inr None)"
    by (simp add: get_mars_weather_answered weather_dataframe_def returning_def)
next
  assume "items \<noteq> [] \<and> filter isdigit (map fst items) = []"
  with assms(1) show "get_mars_weather net
      = ([HttpGet weather_request, st_warning no_weather_message], Inr None)"
    by (simp add: get_mars_weather_answered weather_dataframe_def returning_def pure_step_def)
next
  let ?keys = "filter isdigit (map fst items)"
  let ?rows = "sort_values_sol_descending (map (day_row items) ?keys)"
  assume ne: "?keys \<noteq> []"
  with assms have r: "get_mars_weather net = ([HttpGet weather_request], Inr (Some ?rows))"
    by (simp add: get_mars_weather_answered weather_dataframe_rows)
  have l: "length ?rows = length ?keys"
    using sort_values_mset [of "map (day_row items) ?keys"]
    by (metis length_map size_mset)
  have m: "mset (map sol ?rows) = mset (map (\<lambda>key. int (decimal_value key)) ?keys)"
    using sort_values_mset [of "map (day_row items) ?keys"] day_row_sol [of items ?keys]
    by (metis mset_map)
  from r l m sort_values_descending [of "map (day_row items) ?keys"]
  show "\<exists>rows. get_mars_weather net = ([HttpGet weather_request], Inr (Some rows))
      \<and> length rows = length ?keys
      \<and> mset (map sol rows) = mset (map (\<lambda>key. int (decimal_value key)) ?keys)
      \<and> sorted (rev (map sol rows))"
    by blast
next
  fix key
  assume "isdigit key \<and> length key \<le> int_max_str_digits"
  then show "int_of_str key = Inr (int (decimal_value key))"
    by (simp add: int_of_str_digits)
next
  fix day0 day1 sol_keys validity_checks
  assume i: "items = [(''0'', day0), (''1'', day1), (''sol_keys'', sol_keys),
                  (''validity_checks'', validity_checks)]"
  have k: "filter isdigit (map fst items) = [''0'', ''1'']"
    unfolding i by (simp add: isdigit_def isdigit_char_def)
  have d: "decimal_value ''0'' = 0" "decimal_value ''1'' = 1"
    by (simp_all add: decimal_value_def digit_value_def)
  from assms k have "get_mars_weather net
      = ([HttpGet weather_request],
         Inr (Some (sort_values_sol_descending [day_row items ''0'', day_row items ''1''])))"
    by (simp add: get_mars_weather_answered weather_dataframe_rows)
  moreover have "sort_values_sol_descending [day_row items ''0'', day_row items ''1'']
      = [day_row items ''1'', day_row items ''0'']"
    by (simp add: sort_values_sol_descending_def day_row_def Let_def d)
  moreover have "sol (day_row items ''1'') = 1" "sol (day_row items ''0'') = 0"
    by (simp_all add: day_row_def Let_def d)
  ultimately show "\<exists>row1 row0. get_mars_weather net
                  = ([HttpGet weather_request], Inr (Some [row1, row0]))
                \<and> sol row1 = 1 \<and> sol row0 = 0"
    by auto
qed

text \<open>
  The claim as first stated promises a notice whenever there is no day key. For the empty
  object \<open>get_mars_weather\<close> returns \<open>None\<close> at \<^verbatim>\<open>if not data\<close>, and the only event is the
  request.
\<close>

theorem get_mars_weather_empty_object_counterexample:
  "get_mars_weather (weather_service (JObj [])) = ([HttpGet weather_request], Inr None)"
  by (simp add: get_mars_weather_answered weather_service_answers weather_dataframe_def
      returning_def)

text \<open>The theorem at the sample feed, at the feed of metadata alone, and at two empty days.\<close>

theorem get_mars_weather_rows_witness:
  "weather_payload_ok sample_weather
   \<and> (\<exists>rows. get_mars_weather (weather_service (JObj sample_weather))
                = ([HttpGet weather_request], Inr (Some rows))
            \<and> length rows = 2 \<and> mset (map sol rows) = {#675, 676#}
            \<and> sorted (rev (map sol rows)))
   \<and> get_mars_weather (weather_service (JObj metadata_only))
       = ([HttpGet weather_request, st_warning no_weather_message], Inr None)
   \<and> get_mars_weather (weather_service (JObj [(''0'', JObj []), (''1'', JObj [])]))
       = ([HttpGet weather_request], Inr (Some [day_row [] ''1'', day_row [] ''0'']))"
proof -
  have ok: "weather_payload_ok sample_weather"
    by code_simp
  have keys: "filter isdigit (map fst sample_weather) = [''675'', ''676'']"
    by code_simp
  have nums: "decimal_value ''675'' = 675" "decimal_value ''676'' = 676"
    by code_simp+
  have some: "filter isdigit (map fst sample_weather) \<noteq> []"
    by (simp add: keys)
  from some get_mars_weather_rows [where net = "weather_service (JObj sample_weather)"
      and items = sample_weather, OF weather_service_answers ok]
  obtain rows where r:
    "get_mars_weather (weather_service (JObj sample_weather))
       = ([HttpGet weather_request], Inr (Some rows))"
    "length rows = length (filter isdigit (map fst sample_weather))"
    "mset (map sol rows)
       = mset (map (\<lambda>key. int (decimal_value key)) (filter isdigit (map fst sample_weather)))"
    "sorted (rev (map sol rows))"
    by blast
  from r(2) have r2: "length rows = 2"
    by (simp add: keys)
  from r(3) have r3: "mset (map sol rows) = {#675, 676#}"
    by (simp add: keys nums)
  from r(1) r2 r3 r(4)
  have a: "\<exists>rows. get_mars_weather (weather_service (JObj sample_weather))
                = ([HttpGet weather_request], Inr (Some rows))
            \<and> length rows = 2 \<and> mset (map sol rows) = {#675, 676#}
            \<and> sorted (rev (map sol rows))"
    by blast
  have ok2: "weather_payload_ok metadata_only"
    by code_simp
  have keys2: "metadata_only \<noteq> [] \<and> filter isdigit (map fst metadata_only) = []"
    by code_simp
  from keys2 get_mars_weather_rows [where net = "weather_service (JObj metadata_only)"
      and items = metadata_only, OF weather_service_answers ok2]
  have b: "get_mars_weather (weather_service (JObj metadata_only))
       = ([HttpGet weather_request, st_warning no_weather_message], Inr None)"
    by blast
  have c: "get_mars_weather (weather_service (JObj [(''0'', JObj []), (''1'', JObj [])]))
       = ([HttpGet weather_request], Inr (Some [day_row [] ''1'', day_row [] ''0'']))"
    by code_simp
  from ok a b c show ?thesis by blast
qed

text \<open>
  A day key of more than \<open>int_max_str_digits\<close> digits passes \<^verbatim>\<open>key.isdigit()\<close>, and
  \<^verbatim>\<open>int(sol)\<close> raises \<^verbatim>\<open>ValueError\<close> for it inside the loop.
\<close>

lemma get_mars_weather_overlong_key:
  assumes "isdigit key" and "int_max_str_digits < length key"
  shows "get_mars_weather (weather_service (JObj [(key, JObj [])]))
    = ([HttpGet weather_request], Inl ValueError)"
  using assms
  by (simp add: get_mars_weather_answered weather_service_answers weather_dataframe_def
      returning_def pure_step_def weather_record_of_def dict_get_def int_of_str_overlong)

text \<open>
  Claim C6, as amended. Let the weather endpoint answer with a JSON object whose keys are
  ASCII text, whose keys made of decimal digits have at most 4300 digits and whose values
  under keys made of decimal digits are objects, with objects under \<open>AT\<close> and \<open>PRE\<close> where
  these are present. Then \<open>get_mars_weather\<close> does not raise.
  Every row it returns comes from a key that is a string of digits, so a key of any other
  form gives no row. The row of a day has \<open>None\<close> for the three temperatures when the day
  has no \<open>AT\<close> member and for each temperature that \<open>AT\<close> lacks, \<open>None\<close> for the pressure
  when the day has no \<open>PRE\<close> member or \<open>PRE\<close> lacks \<open>av\<close>, and the season \<open>Unknown\<close> when
  the day has no \<open>Season\<close> member; a day with missing members does not stop the other days
  from being returned.

  The bound on the length of a day key is needed: for a string of more than 4300 digits
  \<open>int\<close> raises \<^verbatim>\<open>ValueError\<close>, and the loop has no handler for it.
\<close>

theorem get_mars_weather_partial_days:
  assumes "net weather_request = Returns (JObj items)" and "weather_payload_ok items"
  shows
    "(\<exists>result. snd (get_mars_weather net) = Inr result)
   \<and> (\<forall>rows. snd (get_mars_weather net) = Inr (Some rows) \<longrightarrow>
        (\<forall>row \<in> set rows. \<exists>key \<in> set (map fst items).
            isdigit key \<and> sol row = int (decimal_value key))
      \<and> (\<forall>key entry. isdigit key \<and> map_of items key = Some (JObj entry) \<longrightarrow>
            (\<exists>row \<in> set rows.
               weather_record_of (JObj items) key = Inr row
             \<and> sol row = int (decimal_value key)
             \<and> (map_of entry ''AT'' = None \<longrightarrow>
                  min_temp_c row = JNull \<and> max_temp_c row = JNull \<and> avg_temp_c row = JNull)
             \<and> (\<forall>members. map_of entry ''AT'' = Some (JObj members) \<longrightarrow>
                  min_temp_c row = dict_get members ''mn'' JNull
                \<and> max_temp_c row = dict_get members ''mx'' JNull
                \<and> avg_temp_c row = dict_get members ''av'' JNull)
             \<and> (map_of entry ''PRE'' = None \<longrightarrow> pressure_pa row = JNull)
             \<and> (\<forall>members. map_of entry ''PRE'' = Some (JObj members) \<longrightarrow>
                  pressure_pa row = dict_get members ''av'' JNull)
             \<and> (map_of entry ''Season'' = None \<longrightarrow> season row = JStr ''Unknown'')
             \<and> (\<forall>v. map_of entry ''Season'' = Some v \<longrightarrow> season row = v)
             \<and> earth_date row = dict_get entry ''First_UTC'' JNull)))
   \<and> (\<forall>members key. map_of members key = None \<longrightarrow> dict_get members key JNull = JNull)
   \<and> (\<forall>key. isdigit key \<and> int_max_str_digits < length key
          \<longrightarrow> int_of_str key = Inl ValueError)"
proof (intro conjI allI impI)
  let ?keys = "filter isdigit (map fst items)"
  show "\<exists>result. snd (get_mars_weather net) = Inr result"
  proof (cases "?keys = []")
    case True
    with assms(1) show ?thesis
      by (cases "items = []")
        (simp_all add: get_mars_weather_answered weather_dataframe_def returning_def
          pure_step_def)
  next
    case False
    with assms show ?thesis
      by (simp add: get_mars_weather_answered weather_dataframe_rows)
  qed
next
  fix members :: "(string \<times> json) list" and key
  assume "map_of members key = None"
  then show "dict_get members key JNull = JNull"
    by (simp add: dict_get_def)
next
  fix key
  assume "isdigit key \<and> int_max_str_digits < length key"
  then show "int_of_str key = Inl ValueError"
    by (simp add: int_of_str_overlong)
next
  let ?keys = "filter isdigit (map fst items)"
  fix rows
  assume rows: "snd (get_mars_weather net) = Inr (Some rows)"
  have ne: "?keys \<noteq> []"
  proof
    assume "?keys = []"
    with assms(1) rows show False
      by (cases "items = []")
        (simp_all add: get_mars_weather_answered weather_dataframe_def returning_def
          pure_step_def)
  qed
  with assms rows
  have eq: "rows = sort_values_sol_descending (map (day_row items) ?keys)"
    by (simp add: get_mars_weather_answered weather_dataframe_rows)
  then have set_rows: "set rows = day_row items ` set ?keys"
    using sort_values_mset [of "map (day_row items) ?keys"]
    by (metis mset_eq_setD set_map)
  show "\<forall>row \<in> set rows. \<exists>key \<in> set (map fst items).
            isdigit key \<and> sol row = int (decimal_value key)"
    unfolding set_rows by (auto simp: day_row_def Let_def)
  fix key entry
  assume k: "isdigit key \<and> map_of items key = Some (JObj entry)"
  then have "key \<in> set ?keys"
    by (auto dest: map_of_SomeD intro: rev_image_eqI)
  then have mem: "day_row items key \<in> set rows"
    unfolding set_rows by (rule imageI)
  from k assms(2) \<open>key \<in> set ?keys\<close>
  have shape: "object_or_missing entry ''AT''" "object_or_missing entry ''PRE''"
    by (auto simp: weather_payload_ok_def list_all_iff)
  from assms(2) \<open>key \<in> set ?keys\<close> have short: "length key \<le> int_max_str_digits"
    by (auto simp: weather_payload_ok_def list_all_iff)
  from shape short k have rec: "weather_record_of (JObj items) key = Inr (day_row items key)"
    by (simp add: weather_record_of_day day_row_def)
  from k have fields:
    "sol (day_row items key) = int (decimal_value key)"
    "map_of entry ''AT'' = None \<longrightarrow>
       min_temp_c (day_row items key) = JNull \<and> max_temp_c (day_row items key) = JNull
       \<and> avg_temp_c (day_row items key) = JNull"
    "\<forall>members. map_of entry ''AT'' = Some (JObj members) \<longrightarrow>
       min_temp_c (day_row items key) = dict_get members ''mn'' JNull
       \<and> max_temp_c (day_row items key) = dict_get members ''mx'' JNull
       \<and> avg_temp_c (day_row items key) = dict_get members ''av'' JNull"
    "map_of entry ''PRE'' = None \<longrightarrow> pressure_pa (day_row items key) = JNull"
    "\<forall>members. map_of entry ''PRE'' = Some (JObj members) \<longrightarrow>
       pressure_pa (day_row items key) = dict_get members ''av'' JNull"
    "map_of entry ''Season'' = None \<longrightarrow> season (day_row items key) = JStr ''Unknown''"
    "\<forall>v. map_of entry ''Season'' = Some v \<longrightarrow> season (day_row items key) = v"
    "earth_date (day_row items key) = dict_get entry ''First_UTC'' JNull"
    by (simp_all add: day_row_def Let_def sub_object_def dict_get_def)
  from mem rec fields
  show "\<exists>row \<in> set rows.
               weather_record_of (JObj items) key = Inr row
             \<and> sol row = int (decimal_value key)
             \<and> (map_of entry ''AT'' = None \<longrightarrow>
                  min_temp_c row = JNull \<and> max_temp_c row = JNull \<and> avg_temp_c row = JNull)
             \<and> (\<forall>members. map_of entry ''AT'' = Some (JObj members) \<longrightarrow>
                  min_temp_c row = dict_get members ''mn'' JNull
                \<and> max_temp_c row = dict_get members ''mx'' JNull
                \<and> avg_temp_c row = dict_get members ''av'' JNull)
             \<and> (map_of entry ''PRE'' = None \<longrightarrow> pressure_pa row = JNull)
             \<and> (\<forall>members. map_of entry ''PRE'' = Some (JObj members) \<longrightarrow>
                  pressure_pa row = dict_get members ''av'' JNull)
             \<and> (map_of entry ''Season'' = None \<longrightarrow> season row = JStr ''Unknown'')
             \<and> (\<forall>v. map_of entry ''Season'' = Some v \<longrightarrow> season row = v)
             \<and> earth_date row = dict_get entry ''First_UTC'' JNull"
    by (intro bexI [of _ "day_row items key"]) blast+
qed

text \<open>
  The theorem at the sample feed: day 676 has neither temperatures nor season nor an average
  pressure, day 675 has them all, and both rows are returned. A key of 4301 digits is one
  that \<open>int\<close> refuses.
\<close>

theorem get_mars_weather_partial_days_witness:
  "weather_service (JObj sample_weather) weather_request = Returns (JObj sample_weather)
   \<and> weather_payload_ok sample_weather
   \<and> (\<exists>rows. snd (get_mars_weather (weather_service (JObj sample_weather))) = Inr (Some rows)
        \<and> (\<exists>row \<in> set rows. sol row = 676
              \<and> min_temp_c row = JNull \<and> max_temp_c row = JNull \<and> avg_temp_c row = JNull
              \<and> pressure_pa row = JNull \<and> season row = JStr ''Unknown''
              \<and> earth_date row = JStr ''2020-10-20T19:11:55Z'')
        \<and> (\<exists>row \<in> set rows. sol row = 675
              \<and> min_temp_c row = JFloat (- 96872 / 1000)
              \<and> pressure_pa row = JFloat (750563 / 1000) \<and> season row = JStr ''fall''))
   \<and> isdigit (replicate 4301 (CHR ''1''))
   \<and> int_of_str (replicate 4301 (CHR ''1'')) = Inl ValueError"
proof -
  let ?net = "weather_service (JObj sample_weather)"
  let ?e675 = "[(''AT'', JObj [(''av'', JFloat (- 62314 / 1000)), (''mn'', JFloat (- 96872 / 1000)),
                            (''mx'', JFloat (- 15908 / 1000))]),
             (''PRE'', JObj [(''av'', JFloat (750563 / 1000))]),
             (''Season'', JStr ''fall''),
             (''First_UTC'', JStr ''2020-10-19T18:32:20Z'')]"
  let ?e676 = "[(''PRE'', JObj [(''ct'', JInt 887776)]),
             (''First_UTC'', JStr ''2020-10-20T19:11:55Z'')]"
  have ok: "weather_payload_ok sample_weather"
    by code_simp
  have nums: "decimal_value ''675'' = 675" "decimal_value ''676'' = 676"
    by code_simp+
  have k675: "isdigit ''675'' \<and> map_of sample_weather ''675'' = Some (JObj ?e675)"
    by (simp add: sample_weather_def isdigit_def isdigit_char_def)
  have k676: "isdigit ''676'' \<and> map_of sample_weather ''676'' = Some (JObj ?e676)"
    by (simp add: sample_weather_def isdigit_def isdigit_char_def)
  note t = get_mars_weather_partial_days [where net = ?net and items = sample_weather,
      OF weather_service_answers ok]
  have "filter isdigit (map fst sample_weather) \<noteq> []"
    by code_simp
  with ok obtain rows where rows: "snd (get_mars_weather ?net) = Inr (Some rows)"
    by (simp add: get_mars_weather_answered weather_service_answers weather_dataframe_rows)
  note day = t [THEN conjunct2, THEN conjunct1, rule_format, OF rows, THEN conjunct2,
      rule_format]
  from day [OF k676] obtain r676 where m676: "r676 \<in> set rows"
    and p676: "weather_record_of (JObj sample_weather) ''676'' = Inr r676
             \<and> sol r676 = int (decimal_value ''676'')
             \<and> (map_of ?e676 ''AT'' = None \<longrightarrow>
                  min_temp_c r676 = JNull \<and> max_temp_c r676 = JNull \<and> avg_temp_c r676 = JNull)
             \<and> (\<forall>members. map_of ?e676 ''AT'' = Some (JObj members) \<longrightarrow>
                  min_temp_c r676 = dict_get members ''mn'' JNull
                \<and> max_temp_c r676 = dict_get members ''mx'' JNull
                \<and> avg_temp_c r676 = dict_get members ''av'' JNull)
             \<and> (map_of ?e676 ''PRE'' = None \<longrightarrow> pressure_pa r676 = JNull)
             \<and> (\<forall>members. map_of ?e676 ''PRE'' = Some (JObj members) \<longrightarrow>
                  pressure_pa r676 = dict_get members ''av'' JNull)
             \<and> (map_of ?e676 ''Season'' = None \<longrightarrow> season r676 = JStr ''Unknown'')
             \<and> (\<forall>v. map_of ?e676 ''Season'' = Some v \<longrightarrow> season r676 = v)
             \<and> earth_date r676 = dict_get ?e676 ''First_UTC'' JNull" ..
  from day [OF k675] obtain r675 where m675: "r675 \<in> set rows"
    and p675: "weather_record_of (JObj sample_weather) ''675'' = Inr r675
             \<and> sol r675 = int (decimal_value ''675'')
             \<and> (map_of ?e675 ''AT'' = None \<longrightarrow>
                  min_temp_c r675 = JNull \<and> max_temp_c r675 = JNull \<and> avg_temp_c r675 = JNull)
             \<and> (\<forall>members. map_of ?e675 ''AT'' = Some (JObj members) \<longrightarrow>
                  min_temp_c r675 = dict_get members ''mn'' JNull
                \<and> max_temp_c r675 = dict_get members ''mx'' JNull
                \<and> avg_temp_c r675 = dict_get members ''av'' JNull)
             \<and> (map_of ?e675 ''PRE'' = None \<longrightarrow> pressure_pa r675 = JNull)
             \<and> (\<forall>members. map_of ?e675 ''PRE'' = Some (JObj members) \<longrightarrow>
                  pressure_pa r675 = dict_get members ''av'' JNull)
             \<and> (map_of ?e675 ''Season'' = None \<longrightarrow> season r675 = JStr ''Unknown'')
             \<and> (\<forall>v. map_of ?e675 ''Season'' = Some v \<longrightarrow> season r675 = v)
             \<and> earth_date r675 = dict_get ?e675 ''First_UTC'' JNull" ..
  from p676 have a: "sol r676 = 676
              \<and> min_temp_c r676 = JNull \<and> max_temp_c r676 = JNull \<and> avg_temp_c r676 = JNull
              \<and> pressure_pa r676 = JNull \<and> season r676 = JStr ''Unknown''
              \<and> earth_date r676 = JStr ''2020-10-20T19:11:55Z''"
    by (simp add: nums dict_get_def)
  from p675 have b: "sol r675 = 675
              \<and> min_temp_c r675 = JFloat (- 96872 / 1000)
              \<and> pressure_pa r675 = JFloat (750563 / 1000) \<and> season r675 = JStr ''fall''"
    by (simp add: nums dict_get_def)
  have A: "\<exists>row \<in> set rows. sol row = 676
              \<and> min_temp_c row = JNull \<and> max_temp_c row = JNull \<and> avg_temp_c row = JNull
              \<and> pressure_pa row = JNull \<and> season row = JStr ''Unknown''
              \<and> earth_date row = JStr ''2020-10-20T19:11:55Z''"
    using m676 a by (intro bexI [of _ r676]) simp_all
  have B: "\<exists>row \<in> set rows. sol row = 675
              \<and> min_temp_c row = JFloat (- 96872 / 1000)
              \<and> pressure_pa row = JFloat (750563 / 1000) \<and> season row = JStr ''fall''"
    using m675 b by (intro bexI [of _ r675]) simp_all
  have long: "isdigit (replicate 4301 (CHR ''1''))
      \<and> int_max_str_digits < length (replicate 4301 (CHR ''1''))"
    by (simp add: isdigit_def list_all_iff isdigit_char_def int_max_str_digits_def)
  note refused = t [THEN conjunct2, THEN conjunct2, THEN conjunct2, rule_format, OF long]
  show ?thesis
    apply (intro conjI)
        apply (rule weather_service_answers)
       apply (rule ok)
      apply (rule exI [of _ rows])
      apply (intro conjI rows A B)
     apply (rule long [THEN conjunct1])
    apply (rule refused)
    done
qed

text \<open>
  The claim as first stated promises that no payload makes the normalisation raise. A day
  whose \<open>AT\<close> member is \<open>null\<close> does: \<^verbatim>\<open>sol_data.get('AT', {})\<close> is then \<open>None\<close>, which has
  no \<open>get\<close>.
\<close>

theorem get_mars_weather_null_sub_object_counterexample:
  "get_mars_weather (weather_service (JObj [(''1'', JObj [(''AT'', JNull)])]))
     = ([HttpGet weather_request], Inl AttributeError)"
  by (simp add: get_mars_weather_answered weather_service_answers weather_dataframe_def
      returning_def pure_step_def isdigit_def isdigit_char_def weather_record_of_def dict_get_def)

subsection \<open>Rover photos\<close>

lemma occurs_in_char: "occurs_in [c] s \<longleftrightarrow> c \<in> set s"
  by (induction s) auto

lemma split_first: "\<exists>ws. split sep s = takeWhile (\<lambda>c. c \<noteq> sep) s # ws"
  by (induction s) auto

lemma split_T_first_string:
  "split_T_first (JStr s) = Inr (JStr (takeWhile (\<lambda>c. c \<noteq> CHR ''T'') s))"
  using split_first [of "CHR ''T''" s] by auto

lemma takeWhile_all: "c \<notin> set s \<Longrightarrow> takeWhile (\<lambda>x. x \<noteq> c) s = s"
  by (induction s) auto

lemma format_photo_entry:
  assumes "image_entry_ok img"
  shows "format_photo (JInt latest) img = Inr (photo_of latest img)"
proof -
  from assms obtain entry where img: "img = JObj entry"
    by (cases img) auto
  from assms img obtain ts where utc: "dict_get entry ''utc'' (JStr '''') = JStr ts"
    and ts: "utc_of img = ts"
    by (auto simp: dict_get_def split: option.splits json.splits)
  from assms img obtain code where ins: "dict_get entry ''instrument'' (JStr ''Unknown'') = JStr code"
    by (auto simp: dict_get_def split: option.splits json.splits)
  from assms img have n: "py_int (dict_get entry ''sol'' (JInt latest))
      = Inr (case map_of entry ''sol'' of Some (JInt k) \<Rightarrow> k | other \<Rightarrow> latest)"
    by (auto simp: dict_get_def split: option.splits json.splits)
  have date: "seq (py_contains ''T'' (JStr ts))
        (\<lambda>has_T. seq (if has_T then split_T_first (JStr ts) else Inr (JStr ts)) f)
      = f (JStr (takeWhile (\<lambda>c. c \<noteq> CHR ''T'') ts))" for f :: "json \<Rightarrow> py_error + photo"
    by (simp add: occurs_in_char split_T_first_string takeWhile_all del: split_T_first.simps)
  show ?thesis
    unfolding img format_photo_def
    by (simp add: utc date ins n photo_of_def Let_def ts [unfolded img]
        del: py_contains.simps utc_of.simps)
qed

lemma latest_sol_scan_find:
  "list_all day_summary_ok days \<Longrightarrow>
   latest_sol_scan days
     = Inr (case find (\<lambda>day. 0 < image_count day) days of
              None \<Rightarrow> JNull
            | Some day \<Rightarrow> day_sol day)"
proof (induction days)
  case Nil
  then show ?case by simp
next
  case (Cons day days)
  from Cons.prems obtain summary where d: "day = JObj summary"
    by (cases day) auto
  from Cons.prems d have "map_of summary ''sol'' \<noteq> None"
    by (auto split: option.splits)
  with Cons d show ?case
    by (auto simp: dict_get_def split: option.splits json.splits)
qed

lemma day_sol_integer: "day_summary_ok day \<Longrightarrow> \<exists>k. day_sol day = JInt k"
  by (cases day) (auto simp: dict_get_def split: option.splits json.splits)

lemma find_last_match:
  "\<lbrakk>P day; \<forall>later \<in> set after. \<not> P later\<rbrakk>
   \<Longrightarrow> find P (rev (before @ day # after)) = Some day"
  by (induction after rule: rev_induct) auto

lemma find_member: "find P xs = Some x \<Longrightarrow> x \<in> set xs"
  by (induction xs) (auto split: if_splits)

lemma find_no_match: "\<forall>x \<in> set xs. \<not> P x \<Longrightarrow> find P (rev xs) = None"
  by (simp add: find_None_iff)

lemma sol_photos_images:
  assumes "net (sol_images_request (JInt k)) = Returns (JObj payload)"
    and "map_of payload ''images'' = Some (JArr images)"
    and "list_all image_entry_ok (slice_to n images)"
  shows "sol_photos net (JInt k) n =
    (if slice_to n images = []
     then ([HttpGet (sol_images_request (JInt k)),
            st_warning (no_images_found_message (JInt k))], Inr None)
     else ([HttpGet (sol_images_request (JInt k))],
           Inr (Some (map (photo_of k) (slice_to n images)))))"
proof -
  from assms(1) have m: "make_request net (MSL_SOL_IMAGES_URL_TEMPLATE (JInt k)) None None
      = ([HttpGet (sol_images_request (JInt k))], Inr (JObj payload))"
    by (simp add: make_request_def sol_images_request_def timeout_or_default_def)
  from assms(2) have present: "payload \<noteq> []" "''images'' \<in> fst ` set payload"
    by (auto dest: map_of_SomeD intro: rev_image_eqI)
  from assms(3) have photos: "collect (format_photo (JInt k)) (slice_to n images)
      = Inr (map (photo_of k) (slice_to n images))"
    by (intro collect_all) (simp add: list_all_iff format_photo_entry)
  show ?thesis
    unfolding sol_photos_def m
    using present assms(2) photos
    by (simp add: pure_step_def returning_def)
qed

lemma get_rover_photos_manifest:
  assumes "lower rover_name = ''curiosity''"
    and "net manifest_request = Returns (JObj manifest)"
    and "map_of manifest ''sols'' = Some (JArr days)"
    and "list_all day_summary_ok days"
  shows "get_rover_photos net rover_name n =
    (if days = []
     then ([HttpGet manifest_request, st_warning no_image_data_message], Inr None)
     else (case find (\<lambda>day. 0 < image_count day) (rev days) of
             None \<Rightarrow> ([HttpGet manifest_request, st_warning no_recent_photos_message], Inr None)
           | Some day \<Rightarrow>
               (HttpGet manifest_request # fst (sol_photos net (day_sol day) n),
                snd (sol_photos net (day_sol day) n))))"
proof -
  from assms(2) have m: "make_request net MSL_MANIFEST_URL None None
      = ([HttpGet manifest_request], Inr (JObj manifest))"
    by (simp add: make_request_def manifest_request_def timeout_or_default_def)
  from assms(3) have present: "manifest \<noteq> []"
    by auto
  from assms(4) have scan: "latest_sol_scan (rev days)
     = Inr (case find (\<lambda>day. 0 < image_count day) (rev days) of
              None \<Rightarrow> JNull
            | Some day \<Rightarrow> day_sol day)"
    by (intro latest_sol_scan_find) (simp add: list_all_iff)
  have chosen: "day_sol day \<noteq> JNull"
    if "find (\<lambda>day. 0 < image_count day) (rev days) = Some day" for day
  proof -
    from that have "day \<in> set (rev days)"
      by (rule find_member)
    then have "day \<in> set days"
      by simp
    with assms(4) have "day_summary_ok day"
      by (simp add: list_all_iff)
    then show ?thesis
      using day_sol_integer by fastforce
  qed
  show ?thesis
    unfolding get_rover_photos_def Let_def
    using assms(1,3) present chosen
    by (simp add: m pure_step_def returning_def dict_get_def py_reversed_def scan
        split: option.splits)
qed

lemma sol_photos_events:
  "set (fst (sol_photos net s n))
     \<subseteq> {HttpGet (sol_images_request s), st_warning (no_images_found_message s)}
         \<union> range st_error"
  unfolding sol_photos_def make_request_def sol_images_request_def timeout_or_default_def
    and_then_def returning_def pure_step_def Let_def
  by (auto split: http_result.splits requests_exception.splits sum.splits if_splits)

lemma sol_photos_requests:
  "requests_of (fst (sol_photos net s n)) = [sol_images_request s]"
  unfolding sol_photos_def make_request_def sol_images_request_def timeout_or_default_def
    and_then_def returning_def pure_step_def Let_def
  by (auto split: http_result.splits requests_exception.splits sum.splits if_splits)

lemma and_then_events:
  "e \<in> set (fst (and_then m f)) \<Longrightarrow>
   e \<in> set (fst m) \<or> (\<exists>v. snd m = Inr v \<and> e \<in> set (fst (f v)))"
  by (auto simp: and_then_def split: sum.splits)

lemma make_request_events:
  "set (fst (make_request net u ps t)) \<subseteq> range HttpGet \<union> range st_error"
  by (auto simp: make_request_def Let_def split: http_result.splits requests_exception.splits)

lemma make_request_first:
  "\<exists>rest. fst (make_request net u ps t)
     = HttpGet \<lparr>url = u, params = ps, timeout = timeout_or_default t\<rparr> # rest"
  by (auto simp: make_request_def Let_def split: http_result.splits requests_exception.splits)

lemma get_rover_photos_events:
  assumes "lower rover_name = ''curiosity''"
  shows "set (fst (get_rover_photos net rover_name n))
    \<subseteq> range HttpGet \<union> range st_error
      \<union> {st_warning no_image_data_message, st_warning no_recent_photos_message}
      \<union> range (\<lambda>s. st_warning (no_images_found_message s))"
proof
  fix e
  assume "e \<in> set (fst (get_rover_photos net rover_name n))"
  with assms have "e \<in> set (fst (and_then (make_request net MSL_MANIFEST_URL None None)
      (\<lambda>manifest_data.
        if \<not> truthy manifest_data then returning [st_error no_manifest_message] None
        else
          and_then (pure_step (py_get manifest_data ''sols'' (JArr []))) (\<lambda>sols.
          if \<not> truthy sols then returning [st_warning no_image_data_message] None
          else
            and_then (pure_step (seq (py_reversed sols) latest_sol_scan)) (\<lambda>latest_sol.
            if latest_sol = JNull then returning [st_warning no_recent_photos_message] None
            else sol_photos net latest_sol n)))))"
    by (simp add: get_rover_photos_def)
  then show "e \<in> range HttpGet \<union> range st_error
      \<union> {st_warning no_image_data_message, st_warning no_recent_photos_message}
      \<union> range (\<lambda>s. st_warning (no_images_found_message s))"
    by (auto dest!: and_then_events subsetD [OF make_request_events]
        subsetD [OF sol_photos_events]
        simp: returning_def pure_step_def split: if_splits)
qed

lemma unsupported_warning_differs:
  "rover_not_available_message titled \<noteq> no_image_data_message"
  "rover_not_available_message titled \<noteq> no_recent_photos_message"
  "rover_not_available_message titled \<noteq> no_images_found_message s"
  by (simp_all add: rover_not_available_message_def no_image_data_message_def
      no_recent_photos_message_def no_images_found_message_def)

lemma get_rover_photos_same_gate:
  "lower rover_name = lower other_name \<Longrightarrow>
   get_rover_photos net rover_name n = get_rover_photos net other_name n"
  by (simp add: get_rover_photos_def)

lemma lower_upper_char: "islower_char c \<Longrightarrow> lower_char (upper_char c) = c"
proof -
  assume l: "islower_char c"
  then have r: "97 \<le> (of_char c :: nat)" "(of_char c :: nat) \<le> 122"
    by (simp_all add: islower_char_def)
  then have m: "((of_char c :: nat) - 32) mod 256 = of_char c - 32"
    by simp
  have v: "of_char (char_of ((of_char c :: nat) - 32) :: char) = (of_char c :: nat) - 32"
    by (simp only: of_char_of m)
  from r have up: "isupper_char (char_of ((of_char c :: nat) - 32))"
    unfolding isupper_char_def v by arith
  from r have restore: "(of_char c :: nat) - 32 + 32 = of_char c"
    by arith
  from l up show ?thesis
    by (simp add: lower_char_def upper_char_def m restore)
qed

lemma lower_lower_char: "islower_char c \<Longrightarrow> lower_char c = c"
  by (simp add: lower_char_def isupper_char_def islower_char_def)

lemma lower_capitalised:
  "\<lbrakk>list_all islower_char name; length upper = length name\<rbrakk>
   \<Longrightarrow> lower (capitalised upper name) = name"
proof (induction name arbitrary: upper)
  case Nil
  then show ?case by (simp add: lower_def capitalised_def)
next
  case (Cons c name)
  from Cons.prems obtain up rest where u: "upper = up # rest" "length rest = length name"
    by (cases upper) auto
  from Cons.prems have "islower_char c" "list_all islower_char name"
    by simp_all
  with Cons.IH [of rest] u show ?case
    by (simp add: lower_def capitalised_def lower_upper_char lower_lower_char)
qed

text \<open>
  Claim C2. Let the rover name pass the gate and the manifest be an object whose \<open>sols\<close>
  member is a list of day summaries (objects with an integer \<open>sol\<close> and, when present, an
  integer \<open>num_images\<close>). Then \<open>get_rover_photos\<close> selects the last day of the list whose
  image count is greater than zero, which is the first one met when the list is scanned
  from its most recent entry backward: its second request is for the images of that day's
  sol. It returns \<open>None\<close> with a warning, and sends no second request, when no day has
  images or the list is empty. For the days \<open>(sol 10, 0 images)\<close>, \<open>(sol 11, 3 images)\<close>,
  \<open>(sol 12, 0 images)\<close> it selects sol 11.
\<close>

theorem get_rover_photos_latest_sol:
  assumes "lower rover_name = ''curiosity''"
    and "net manifest_request = Returns (JObj manifest)"
    and "map_of manifest ''sols'' = Some (JArr days)"
    and "list_all day_summary_ok days"
  shows
    "(days = [] \<longrightarrow>
        get_rover_photos net rover_name n
          = ([HttpGet manifest_request, st_warning no_image_data_message], Inr None))
   \<and> (days \<noteq> [] \<and> (\<forall>day \<in> set days. image_count day \<le> 0) \<longrightarrow>
        get_rover_photos net rover_name n
          = ([HttpGet manifest_request, st_warning no_recent_photos_message], Inr None))
   \<and> (\<forall>before day after.
         days = before @ day # after \<and> 0 < image_count day
         \<and> (\<forall>later \<in> set after. image_count later \<le> 0) \<longrightarrow>
           get_rover_photos net rover_name n
             = (HttpGet manifest_request # fst (sol_photos net (day_sol day) n),
                snd (sol_photos net (day_sol day) n))
         \<and> requests_of (fst (get_rover_photos net rover_name n))
             = [manifest_request, sol_images_request (day_sol day)])
   \<and> (days = [JObj [(''sol'', JInt 10), (''num_images'', JInt 0)],
               JObj [(''sol'', JInt 11), (''num_images'', JInt 3)],
               JObj [(''sol'', JInt 12), (''num_images'', JInt 0)]] \<longrightarrow>
         requests_of (fst (get_rover_photos net rover_name n))
           = [manifest_request, sol_images_request (JInt 11)])"
proof -
  note path = get_rover_photos_manifest [where net = net and n = n, OF assms]
  have selected: "get_rover_photos net rover_name n
             = (HttpGet manifest_request # fst (sol_photos net (day_sol day) n),
                snd (sol_photos net (day_sol day) n))
         \<and> requests_of (fst (get_rover_photos net rover_name n))
             = [manifest_request, sol_images_request (day_sol day)]"
    if "days = before @ day # after" "0 < image_count day"
      "\<forall>later \<in> set after. image_count later \<le> 0" for before day after
  proof -
    from that(2,3) have "find (\<lambda>day. 0 < image_count day) (rev (before @ day # after)) = Some day"
      by (intro find_last_match) auto
    with path that(1) show ?thesis
      by (simp add: sol_photos_requests)
  qed
  have a: "days = [] \<longrightarrow>
        get_rover_photos net rover_name n
          = ([HttpGet manifest_request, st_warning no_image_data_message], Inr None)"
    using path by simp
  have b: "days \<noteq> [] \<and> (\<forall>day \<in> set days. image_count day \<le> 0) \<longrightarrow>
        get_rover_photos net rover_name n
          = ([HttpGet manifest_request, st_warning no_recent_photos_message], Inr None)"
  proof
    assume h: "days \<noteq> [] \<and> (\<forall>day \<in> set days. image_count day \<le> 0)"
    then have "find (\<lambda>day. 0 < image_count day) (rev days) = None"
      by (intro find_no_match) auto
    with path h show "get_rover_photos net rover_name n
          = ([HttpGet manifest_request, st_warning no_recent_photos_message], Inr None)"
      by simp
  qed
  have c: "days = [JObj [(''sol'', JInt 10), (''num_images'', JInt 0)],
               JObj [(''sol'', JInt 11), (''num_images'', JInt 3)],
               JObj [(''sol'', JInt 12), (''num_images'', JInt 0)]] \<longrightarrow>
         requests_of (fst (get_rover_photos net rover_name n))
           = [manifest_request, sol_images_request (JInt 11)]"
  proof
    assume d: "days = [JObj [(''sol'', JInt 10), (''num_images'', JInt 0)],
               JObj [(''sol'', JInt 11), (''num_images'', JInt 3)],
               JObj [(''sol'', JInt 12), (''num_images'', JInt 0)]]"
    from selected [of "[JObj [(''sol'', JInt 10), (''num_images'', JInt 0)]]"
        "JObj [(''sol'', JInt 11), (''num_images'', JInt 3)]"
        "[JObj [(''sol'', JInt 12), (''num_images'', JInt 0)]]"] d
    show "requests_of (fst (get_rover_photos net rover_name n))
           = [manifest_request, sol_images_request (JInt 11)]"
      by (simp add: dict_get_def sol_photos_requests)
  qed
  from a b c selected show ?thesis
    by blast
qed

lemma sample_rover_service_answers:
  "sample_rover_service manifest_request = Returns (JObj [(''sols'', JArr sample_days)])"
  "sample_rover_service (sol_images_request (JInt 11))
     = Returns (JObj [(''images'', JArr sample_images)])"
  by (simp_all add: sample_rover_service_def rover_service_def canned_def manifest_request_def
      sol_images_request_def MSL_MANIFEST_URL_def MSL_SOL_IMAGES_URL_TEMPLATE_def)

lemma manifest_service_answers:
  "manifest_service days manifest_request = Returns (JObj [(''sols'', JArr days)])"
  by (simp add: manifest_service_def canned_def manifest_request_def)

lemma lower_curiosity: "lower ''curiosity'' = ''curiosity''"
  by code_simp

lemma sample_days_ok: "list_all day_summary_ok sample_days"
  by (simp add: sample_days_def)

text \<open>
  The theorem at the sample manifest, at a manifest whose days have no images, and at a
  manifest with no days.
\<close>

theorem get_rover_photos_latest_sol_witness:
  "lower ''curiosity'' = ''curiosity''
   \<and> sample_rover_service manifest_request = Returns (JObj [(''sols'', JArr sample_days)])
   \<and> list_all day_summary_ok sample_days
   \<and> requests_of (fst (get_rover_photos sample_rover_service ''curiosity'' 5))
       = [manifest_request, sol_images_request (JInt 11)]
   \<and> list_all day_summary_ok idle_days
   \<and> get_rover_photos (manifest_service idle_days) ''curiosity'' 5
       = ([HttpGet manifest_request, st_warning no_recent_photos_message], Inr None)
   \<and> get_rover_photos (manifest_service []) ''curiosity'' 5
       = ([HttpGet manifest_request, st_warning no_image_data_message], Inr None)"
proof -
  have sols: "map_of [(''sols'', JArr days)] ''sols'' = Some (JArr days)" for days
    by simp
  have split: "sample_days
      = [JObj [(''sol'', JInt 10), (''num_images'', JInt 0)]]
        @ JObj [(''sol'', JInt 11), (''num_images'', JInt 3)]
        # [JObj [(''sol'', JInt 12), (''num_images'', JInt 0)]]
      \<and> 0 < image_count (JObj [(''sol'', JInt 11), (''num_images'', JInt 3)])
      \<and> (\<forall>later \<in> set [JObj [(''sol'', JInt 12), (''num_images'', JInt 0)]].
            image_count later \<le> 0)"
    by (simp add: sample_days_def)
  have sol11: "day_sol (JObj [(''sol'', JInt 11), (''num_images'', JInt 3)]) = JInt 11"
    by (simp add: dict_get_def)
  note chosen = get_rover_photos_latest_sol [where net = sample_rover_service and n = 5,
      OF lower_curiosity sample_rover_service_answers(1) sols sample_days_ok,
      THEN conjunct2, THEN conjunct2, THEN conjunct1, rule_format, OF split, THEN conjunct2]
  have a: "requests_of (fst (get_rover_photos sample_rover_service ''curiosity'' 5))
       = [manifest_request, sol_images_request (JInt 11)]"
    using chosen unfolding sol11 .
  have idle_ok: "list_all day_summary_ok idle_days"
    by (simp add: idle_days_def)
  have idle: "idle_days \<noteq> [] \<and> (\<forall>day \<in> set idle_days. image_count day \<le> 0)"
    by (simp add: idle_days_def)
  from idle get_rover_photos_latest_sol [where net = "manifest_service idle_days" and n = 5,
      OF lower_curiosity manifest_service_answers sols idle_ok]
  have b: "get_rover_photos (manifest_service idle_days) ''curiosity'' 5
       = ([HttpGet manifest_request, st_warning no_recent_photos_message], Inr None)"
    by blast
  have none_ok: "list_all day_summary_ok []"
    by simp
  from get_rover_photos_latest_sol [where net = "manifest_service []" and n = 5,
      OF lower_curiosity manifest_service_answers sols none_ok]
  have c: "get_rover_photos (manifest_service []) ''curiosity'' 5
       = ([HttpGet manifest_request, st_warning no_image_data_message], Inr None)"
    by blast
  from lower_curiosity sample_rover_service_answers(1) sample_days_ok a idle_ok b c
  show ?thesis
    by (intro conjI)
qed

text \<open>
  Claim C5, as amended. For every rover name whose lower-case form is not \<open>curiosity\<close>,
  \<open>get_rover_photos\<close> returns \<open>None\<close> with the warning that the rover is not available, and
  sends no request: the gate is evaluated before any HTTP request is issued.
\<close>

theorem get_rover_photos_unsupported:
  assumes "lower rover_name \<noteq> ''curiosity''"
  shows "get_rover_photos net rover_name n
           = ([st_warning (rover_not_available_message (title (lower rover_name)))], Inr None)
         \<and> requests_of (fst (get_rover_photos net rover_name n)) = []"
  using assms by (simp add: get_rover_photos_def returning_def)

text \<open>The theorem at the name \<open>Perseverance\<close>.\<close>

theorem get_rover_photos_unsupported_witness:
  "lower ''Perseverance'' \<noteq> ''curiosity''
   \<and> get_rover_photos sample_rover_service ''Perseverance'' 5
       = ([st_warning (rover_not_available_message ''Perseverance'')], Inr None)
   \<and> requests_of (fst (get_rover_photos sample_rover_service ''Perseverance'' 5)) = []"
proof -
  have l: "lower ''Perseverance'' = ''perseverance''"
    by code_simp
  then have h: "lower ''Perseverance'' \<noteq> ''curiosity''"
    by simp
  have t: "title ''perseverance'' = ''Perseverance''"
    by code_simp
  from get_rover_photos_unsupported [OF h, of sample_rover_service 5] h
  show ?thesis
    by (simp add: l t)
qed

text \<open>
  The claim as first stated speaks of every name not equal to the supported value. The name
  \<open>Curiosity\<close> is not equal to \<open>curiosity\<close>, yet \<open>get_rover_photos\<close> lowers it first, sends
  both requests and returns the photos.
\<close>

theorem get_rover_photos_capitalised_counterexample:
  "''Curiosity'' \<noteq> ''curiosity''
   \<and> get_rover_photos sample_rover_service ''Curiosity'' 5
       = ([HttpGet manifest_request, HttpGet (sol_images_request (JInt 11))],
          Inr (Some (map (photo_of 11) sample_images)))"
proof -
  have l: "lower ''Curiosity'' = ''curiosity''"
    by code_simp
  have shape: "list_all image_entry_ok (slice_to 5 sample_images)"
    by (simp add: slice_to_def sample_images_def)
  have some: "slice_to 5 sample_images = sample_images" "sample_images \<noteq> []"
    by (simp_all add: slice_to_def sample_images_def)
  have sols: "map_of [(''sols'', JArr sample_days)] ''sols'' = Some (JArr sample_days)"
    by simp
  have found: "find (\<lambda>day. 0 < image_count day) (rev sample_days)
      = Some (JObj [(''sol'', JInt 11), (''num_images'', JInt 3)])"
    by (simp add: sample_days_def)
  have sol11: "day_sol (JObj [(''sol'', JInt 11), (''num_images'', JInt 3)]) = JInt 11"
    by (simp add: dict_get_def)
  have images: "map_of [(''images'', JArr sample_images)] ''images'' = Some (JArr sample_images)"
    by simp
  have "sample_days \<noteq> []"
    by (simp add: sample_days_def)
  with get_rover_photos_manifest [where net = sample_rover_service and n = 5,
      OF l sample_rover_service_answers(1) sols sample_days_ok]
    sol_photos_images [where net = sample_rover_service and n = 5,
      OF sample_rover_service_answers(2) images shape]
  show ?thesis
    by (simp add: found dict_get_def some)
qed

lemma list_all_taken: "list_all P xs \<Longrightarrow> list_all P (take n xs)"
  by (auto simp: list_all_iff dest: in_set_takeD)

lemma takeWhile_before: "c \<notin> set xs \<Longrightarrow> takeWhile (\<lambda>x. x \<noteq> c) (xs @ c # ys) = xs"
  by (induction xs) auto

text \<open>
  Claim C7, as amended. Let \<open>get_rover_photos\<close> have selected a day, and let the answer for
  that day be an object whose \<open>images\<close> member is a list, the first \<open>n\<close> entries of which are
  image entries (objects in which \<open>utc\<close> and \<open>instrument\<close> are strings and \<open>sol\<close> is an
  integer, where present), for a requested count \<open>n\<close> that is not negative.
  \<^item> If \<open>n\<close> is at least 1 and the list is not empty, the result is the list of the
    records of the first \<open>min n (length images)\<close> images, in the order of the upstream list;
    the \<open>earth_date\<close> of each record is the part of the image's timestamp before the first
    \<open>T\<close>, which is the whole timestamp when it has no \<open>T\<close>.
  \<^item> If \<open>n\<close> is 0 or the list is empty, the result is \<open>None\<close>, with the warning that no
    images were found.
\<close>

theorem get_rover_photos_prefix:
  assumes "lower rover_name = ''curiosity''"
    and "net manifest_request = Returns (JObj manifest)"
    and "map_of manifest ''sols'' = Some (JArr days)"
    and "list_all day_summary_ok days"
    and "days = before @ day # after"
    and "0 < image_count day"
    and "\<forall>later \<in> set after. image_count later \<le> 0"
    and "net (sol_images_request (day_sol day)) = Returns (JObj payload)"
    and "map_of payload ''images'' = Some (JArr images)"
    and "0 \<le> n"
    and "list_all image_entry_ok (take (nat n) images)"
  shows
    "(n = 0 \<or> images = [] \<longrightarrow>
        get_rover_photos net rover_name n
          = ([HttpGet manifest_request, HttpGet (sol_images_request (day_sol day)),
              st_warning (no_images_found_message (day_sol day))], Inr None))
   \<and> (0 < n \<and> images \<noteq> [] \<longrightarrow>
        (\<exists>photos k.
            get_rover_photos net rover_name n
              = ([HttpGet manifest_request, HttpGet (sol_images_request (day_sol day))],
                 Inr (Some photos))
          \<and> day_sol day = JInt k
          \<and> photos = map (photo_of k) (take (nat n) images)
          \<and> length photos = min (nat n) (length images)
          \<and> (\<forall>i < length photos.
                format_photo (day_sol day) (images ! i) = Inr (photos ! i)
              \<and> photo_earth_date (photos ! i)
                  = JStr (takeWhile (\<lambda>c. c \<noteq> CHR ''T'') (utc_of (images ! i)))
              \<and> (CHR ''T'' \<notin> set (utc_of (images ! i)) \<longrightarrow>
                    photo_earth_date (photos ! i) = JStr (utc_of (images ! i))))))
   \<and> (\<forall>date time. CHR ''T'' \<notin> set date \<longrightarrow>
         takeWhile (\<lambda>c. c \<noteq> CHR ''T'') (date @ CHR ''T'' # time) = date)"
proof -
  from assms(4,5) have "day_summary_ok day"
    by (simp add: list_all_iff)
  then obtain k where k: "day_sol day = JInt k"
    using day_sol_integer by blast
  from assms(6,7) have "find (\<lambda>day. 0 < image_count day) (rev (before @ day # after)) = Some day"
    by (intro find_last_match) auto
  with get_rover_photos_manifest [where net = net and n = n, OF assms(1-4)] assms(5)
  have path: "get_rover_photos net rover_name n
      = (HttpGet manifest_request # fst (sol_photos net (JInt k) n),
         snd (sol_photos net (JInt k) n))"
    by (simp add: k)
  from assms(10) have slice: "slice_to n images = take (nat n) images"
    by (simp add: slice_to_def)
  note photos = sol_photos_images [where net = net and n = n,
      OF assms(8) [unfolded k] assms(9) assms(11) [folded slice], unfolded slice]
  have a: "n = 0 \<or> images = [] \<longrightarrow>
        get_rover_photos net rover_name n
          = ([HttpGet manifest_request, HttpGet (sol_images_request (day_sol day)),
              st_warning (no_images_found_message (day_sol day))], Inr None)"
    using path photos by (auto simp: k)
  have b: "\<exists>photos k.
            get_rover_photos net rover_name n
              = ([HttpGet manifest_request, HttpGet (sol_images_request (day_sol day))],
                 Inr (Some photos))
          \<and> day_sol day = JInt k
          \<and> photos = map (photo_of k) (take (nat n) images)
          \<and> length photos = min (nat n) (length images)
          \<and> (\<forall>i < length photos.
                format_photo (day_sol day) (images ! i) = Inr (photos ! i)
              \<and> photo_earth_date (photos ! i)
                  = JStr (takeWhile (\<lambda>c. c \<noteq> CHR ''T'') (utc_of (images ! i)))
              \<and> (CHR ''T'' \<notin> set (utc_of (images ! i)) \<longrightarrow>
                    photo_earth_date (photos ! i) = JStr (utc_of (images ! i))))"
    if h: "0 < n \<and> images \<noteq> []"
  proof (intro exI [of _ "map (photo_of k) (take (nat n) images)"] exI [of _ k] conjI allI impI)
    from h have "take (nat n) images \<noteq> []"
      by (cases images) auto
    with path photos
    show "get_rover_photos net rover_name n
              = ([HttpGet manifest_request, HttpGet (sol_images_request (day_sol day))],
                 Inr (Some (map (photo_of k) (take (nat n) images))))"
      by (simp add: k)
    show "day_sol day = JInt k"
      by (rule k)
    show "map (photo_of k) (take (nat n) images) = map (photo_of k) (take (nat n) images)"
      by (rule refl)
    show "length (map (photo_of k) (take (nat n) images)) = min (nat n) (length images)"
      by (simp add: min.commute)
  next
    fix i
    assume i: "i < length (map (photo_of k) (take (nat n) images))"
    then have at: "map (photo_of k) (take (nat n) images) ! i = photo_of k (images ! i)"
      by simp
    from i have "images ! i \<in> set (take (nat n) images)"
      by (metis length_map nth_mem nth_take length_take min_less_iff_conj)
    with assms(11) have ok: "image_entry_ok (images ! i)"
      by (simp add: list_all_iff)
    show "format_photo (day_sol day) (images ! i)
        = Inr (map (photo_of k) (take (nat n) images) ! i)"
      unfolding at k using ok by (rule format_photo_entry)
    show "photo_earth_date (map (photo_of k) (take (nat n) images) ! i)
        = JStr (takeWhile (\<lambda>c. c \<noteq> CHR ''T'') (utc_of (images ! i)))"
      unfolding at by (simp add: photo_of_def Let_def)
    assume "CHR ''T'' \<notin> set (utc_of (images ! i))"
    then show "photo_earth_date (map (photo_of k) (take (nat n) images) ! i)
        = JStr (utc_of (images ! i))"
      unfolding at by (simp add: photo_of_def Let_def takeWhile_all)
  qed
  have c: "\<forall>date time. CHR ''T'' \<notin> set date \<longrightarrow>
         takeWhile (\<lambda>c. c \<noteq> CHR ''T'') (date @ CHR ''T'' # time) = date"
    by (simp add: takeWhile_before)
  from a b c show ?thesis
    by blast
qed

text \<open>The theorem at the sample service, for the counts 2 and 0.\<close>

theorem get_rover_photos_prefix_witness:
  "get_rover_photos sample_rover_service ''curiosity'' 2
     = ([HttpGet manifest_request, HttpGet (sol_images_request (JInt 11))],
        Inr (Some (map (photo_of 11) (take 2 sample_images))))
   \<and> map photo_id (map (photo_of 11) (take 2 sample_images))
       = [JStr ''NLA_398479541EDR'', JStr ''0011ML0000480000'']
   \<and> map photo_earth_date (map (photo_of 11) (take 2 sample_images))
       = [JStr ''2012-08-17'', JStr ''2012-08-17'']
   \<and> get_rover_photos sample_rover_service ''curiosity'' 0
       = ([HttpGet manifest_request, HttpGet (sol_images_request (JInt 11)),
           st_warning (no_images_found_message (JInt 11))], Inr None)"
proof -
  let ?day = "JObj [(''sol'', JInt 11), (''num_images'', JInt 3)]"
  have sols: "map_of [(''sols'', JArr sample_days)] ''sols'' = Some (JArr sample_days)"
    by simp
  have days: "sample_days
      = [JObj [(''sol'', JInt 10), (''num_images'', JInt 0)]] @ ?day
        # [JObj [(''sol'', JInt 12), (''num_images'', JInt 0)]]"
    by (simp add: sample_days_def)
  have count: "0 < image_count ?day"
    by simp
  have later: "\<forall>later \<in> set [JObj [(''sol'', JInt 12), (''num_images'', JInt 0)]].
      image_count later \<le> 0"
    by simp
  have sol11: "day_sol ?day = JInt 11"
    by (simp add: dict_get_def)
  have images: "map_of [(''images'', JArr sample_images)] ''images'' = Some (JArr sample_images)"
    by simp
  have shape: "list_all image_entry_ok (take (nat n) sample_images)" for n
    by (rule list_all_taken) (simp add: sample_images_def)
  have answer: "sample_rover_service (sol_images_request (day_sol ?day))
      = Returns (JObj [(''images'', JArr sample_images)])"
    unfolding sol11 by (rule sample_rover_service_answers)
  note t = get_rover_photos_prefix [where net = sample_rover_service and images = sample_images,
      OF lower_curiosity sample_rover_service_answers(1) sols sample_days_ok days count later
        answer images _ shape, unfolded sol11]
  have two: "(0::int) < 2 \<and> sample_images \<noteq> []"
    by (simp add: sample_images_def)
  from t [of 2, THEN conjunct2, THEN conjunct1] two
  have a: "get_rover_photos sample_rover_service ''curiosity'' 2
     = ([HttpGet manifest_request, HttpGet (sol_images_request (JInt 11))],
        Inr (Some (map (photo_of 11) (take 2 sample_images))))"
    by auto
  from t [of 0, THEN conjunct1]
  have b: "get_rover_photos sample_rover_service ''curiosity'' 0
       = ([HttpGet manifest_request, HttpGet (sol_images_request (JInt 11)),
           st_warning (no_images_found_message (JInt 11))], Inr None)"
    by simp
  have c: "map photo_id (map (photo_of 11) (take 2 sample_images))
       = [JStr ''NLA_398479541EDR'', JStr ''0011ML0000480000'']"
    by (simp add: sample_images_def photo_of_def Let_def dict_get_def)
  have d: "map photo_earth_date (map (photo_of 11) (take 2 sample_images))
       = [JStr ''2012-08-17'', JStr ''2012-08-17'']"
    by (simp add: sample_images_def photo_of_def Let_def)
  from a c d b show ?thesis
    by (intro conjI)
qed

text \<open>
  The claim as first stated speaks of every requested count. For the count 0 the three
  images of the sample day give \<open>None\<close> and a warning, where the claim promises the prefix
  of length 0; for the count \<open>-1\<close> the slice \<^verbatim>\<open>[:num_photos]\<close> drops the last image and two
  records are returned.
\<close>

theorem get_rover_photos_count_counterexample:
  "length sample_images = 3
   \<and> get_rover_photos sample_rover_service ''curiosity'' 0
       = ([HttpGet manifest_request, HttpGet (sol_images_request (JInt 11)),
           st_warning (no_images_found_message (JInt 11))], Inr None)
   \<and> get_rover_photos sample_rover_service ''curiosity'' (- 1)
       = ([HttpGet manifest_request, HttpGet (sol_images_request (JInt 11))],
          Inr (Some (map (photo_of 11) (take 2 sample_images))))"
proof -
  have sols: "map_of [(''sols'', JArr sample_days)] ''sols'' = Some (JArr sample_days)"
    by simp
  have found: "find (\<lambda>day. 0 < image_count day) (rev sample_days)
      = Some (JObj [(''sol'', JInt 11), (''num_images'', JInt 3)])"
    by (simp add: sample_days_def)
  have images: "map_of [(''images'', JArr sample_images)] ''images'' = Some (JArr sample_images)"
    by simp
  have len: "length sample_images = 3"
    by (simp add: sample_images_def)
  have slices: "slice_to 0 sample_images = []" "slice_to (- 1) sample_images = take 2 sample_images"
    by (simp_all add: slice_to_def len)
  have shape: "list_all image_entry_ok (slice_to n sample_images)" for n
    unfolding slice_to_def by (auto intro!: list_all_taken simp: sample_images_def)
  have some: "take 2 sample_images \<noteq> []" "sample_days \<noteq> []"
    by (simp_all add: sample_images_def sample_days_def)
  note path = get_rover_photos_manifest [where net = sample_rover_service,
      OF lower_curiosity sample_rover_service_answers(1) sols sample_days_ok]
  note photos = sol_photos_images [where net = sample_rover_service,
      OF sample_rover_service_answers(2) images shape]
  from path [of 0] photos [of 0] path [of "- 1"] photos [of "- 1"] len some
  show ?thesis
    by (simp add: found dict_get_def slices)
qed

lemma get_rover_photos_first:
  assumes "lower rover_name = ''curiosity''"
  shows "\<exists>rest. fst (get_rover_photos net rover_name n) = HttpGet manifest_request # rest"
proof -
  from make_request_first [of net MSL_MANIFEST_URL None None]
  obtain rest where "fst (make_request net MSL_MANIFEST_URL None None)
      = HttpGet manifest_request # rest"
    by (auto simp: manifest_request_def timeout_or_default_def)
  with assms show ?thesis
    by (cases "snd (make_request net MSL_MANIFEST_URL None None)")
      (simp_all add: get_rover_photos_def and_then_def)
qed

text \<open>
  Claim C10. The gate is case-insensitive: \<open>get_rover_photos\<close> lowers the rover name before
  comparing it, so a name whose lower-case form is \<open>curiosity\<close> is treated exactly as
  \<open>curiosity\<close> itself: the manifest request is sent and no event is the warning that the
  rover is not available. Every spelling of \<open>curiosity\<close> with some letters in upper case
  has that lower-case form, among them \<open>Curiosity\<close> and \<open>CURIOSITY\<close>, which are not equal
  to \<open>curiosity\<close>.
\<close>

theorem get_rover_photos_case_insensitive:
  "(lower rover_name = ''curiosity'' \<longrightarrow>
      get_rover_photos net rover_name n = get_rover_photos net ''curiosity'' n
    \<and> (\<exists>rest. fst (get_rover_photos net rover_name n) = HttpGet manifest_request # rest)
    \<and> (\<forall>titled. st_warning (rover_not_available_message titled)
          \<notin> set (fst (get_rover_photos net rover_name n))))
   \<and> (\<forall>upper. length upper = length ''curiosity'' \<longrightarrow>
         lower (capitalised upper ''curiosity'') = ''curiosity'')
   \<and> capitalised [True, False, False, False, False, False, False, False, False] ''curiosity''
       = ''Curiosity''
   \<and> capitalised (replicate 9 True) ''curiosity'' = ''CURIOSITY''
   \<and> ''Curiosity'' \<noteq> ''curiosity'' \<and> ''CURIOSITY'' \<noteq> ''curiosity''"
proof (intro conjI impI allI)
  assume l: "lower rover_name = ''curiosity''"
  then show "get_rover_photos net rover_name n = get_rover_photos net ''curiosity'' n"
    by (intro get_rover_photos_same_gate) (simp add: lower_curiosity)
  from l show "\<exists>rest. fst (get_rover_photos net rover_name n) = HttpGet manifest_request # rest"
    by (rule get_rover_photos_first)
  fix titled
  show "st_warning (rover_not_available_message titled)
          \<notin> set (fst (get_rover_photos net rover_name n))"
    using get_rover_photos_events [OF l, of net n] unsupported_warning_differs [of titled]
    by auto
next
  fix upper :: "bool list"
  assume "length upper = length ''curiosity''"
  moreover have "list_all islower_char ''curiosity''"
    by (simp add: islower_char_def)
  ultimately show "lower (capitalised upper ''curiosity'') = ''curiosity''"
    by (intro lower_capitalised)
next
  show "capitalised [True, False, False, False, False, False, False, False, False] ''curiosity''
       = ''Curiosity''"
    by code_simp
  show "capitalised (replicate 9 True) ''curiosity'' = ''CURIOSITY''"
    by code_simp
qed simp_all

text \<open>The theorem at the spelling \<open>CuRiOsItY\<close>.\<close>

theorem get_rover_photos_case_insensitive_witness:
  "lower ''CuRiOsItY'' = ''curiosity''
   \<and> get_rover_photos sample_rover_service ''CuRiOsItY'' 5
       = get_rover_photos sample_rover_service ''curiosity'' 5
   \<and> length [False, True, False, True, False, True, False, True, False] = length ''curiosity''
   \<and> lower (capitalised [False, True, False, True, False, True, False, True, False]
        ''curiosity'') = ''curiosity''"
proof -
  have l: "lower ''CuRiOsItY'' = ''curiosity''"
    by code_simp
  have n: "length [False, True, False, True, False, True, False, True, False]
      = length ''curiosity''"
    by simp
  note t = get_rover_photos_case_insensitive [where rover_name = "''CuRiOsItY''"
      and net = sample_rover_service and n = 5]
  from t l have a: "get_rover_photos sample_rover_service ''CuRiOsItY'' 5
       = get_rover_photos sample_rover_service ''curiosity'' 5"
    by blast
  from t n have b: "lower (capitalised [False, True, False, True, False, True, False, True, False]
        ''curiosity'') = ''curiosity''"
    by blast
  from l a n b show ?thesis
    by (intro conjI)
qed

subsection \<open>The gateway\<close>

lemma gateway_messages_distinct:
  "distinct [timeout_message, rate_limit_message, http_error_message c m,
             network_error_message m']"
  by (simp add: timeout_message_def rate_limit_message_def http_error_message_def
      network_error_message_def stopwatch_def no_entry_sign_def cross_mark_def globe_def)

lemma make_request_once:
  "requests_of (fst (make_request net u ps t))
     = [\<lparr>url = u, params = ps, timeout = timeout_or_default t\<rparr>]"
  by (simp add: make_request_def Let_def split: http_result.splits requests_exception.splits)

lemma weather_dataframe_requests: "requests_of (fst (weather_dataframe data)) = []"
  by (simp add: weather_dataframe_def and_then_requests returning_def pure_step_def Let_def
      split: sum.splits)

lemma get_mars_weather_requests: "requests_of (fst (get_mars_weather net)) = [weather_request]"
  by (simp add: get_mars_weather_def and_then_requests make_request_once
      weather_dataframe_requests weather_request_def timeout_or_default_def split: sum.splits)

lemma get_rover_photos_requests:
  "requests_of (fst (get_rover_photos net rover_name n)) = []
   \<or> requests_of (fst (get_rover_photos net rover_name n)) = [manifest_request]
   \<or> (\<exists>s. requests_of (fst (get_rover_photos net rover_name n))
          = [manifest_request, sol_images_request s])"
  by (auto simp: get_rover_photos_def and_then_requests make_request_once sol_photos_requests
      returning_def pure_step_def manifest_request_def timeout_or_default_def Let_def
      split: sum.splits)

lemma requests_differ: "manifest_request \<noteq> sol_images_request s"
  by (simp add: manifest_request_def sol_images_request_def MSL_MANIFEST_URL_def
      MSL_SOL_IMAGES_URL_TEMPLATE_def)

lemma get_rover_photos_no_retry:
  "distinct (requests_of (fst (get_rover_photos net rover_name n)))
   \<and> length (requests_of (fst (get_rover_photos net rover_name n))) \<le> 2"
  using get_rover_photos_requests [of net rover_name n] requests_differ
  by auto

text \<open>
  Claim C4. A call of \<open>make_request\<close> sends the request once, with a timeout of 10 when the
  caller gives none. When the request succeeds the parsed body is returned. A timeout, the
  HTTP status 429, any other HTTP error status, and any other failure of the
  \<^verbatim>\<open>requests\<close> library are each reported with \<^verbatim>\<open>st.error\<close>, with four different messages
  (that of an HTTP error holds the status code), and each makes \<open>make_request\<close> return
  \<^verbatim>\<open>None\<close> instead of raising. There is no retry: \<open>get_mars_weather\<close> sends its request
  exactly once, and \<open>get_rover_photos\<close> sends at most two requests, no request twice.
\<close>

theorem make_request_failure_mapping:
  "(let request = \<lparr>url = u, params = ps, timeout = timeout_or_default t\<rparr>;
        result = make_request net u ps t
    in (\<forall>body. net request = Returns body \<longrightarrow> result = ([HttpGet request], Inr body))
     \<and> (\<forall>m. net request = Raises (Timeout m)
            \<longrightarrow> result = ([HttpGet request, st_error timeout_message], Inr JNull))
     \<and> (\<forall>m. net request = Raises (HTTPError 429 m)
            \<longrightarrow> result = ([HttpGet request, st_error rate_limit_message], Inr JNull))
     \<and> (\<forall>c m. net request = Raises (HTTPError c m) \<and> c \<noteq> 429
            \<longrightarrow> result = ([HttpGet request, st_error (http_error_message c m)], Inr JNull)
              \<and> Value (JInt (int c)) \<in> set (http_error_message c m))
     \<and> (\<forall>m. net request = Raises (RequestException m)
            \<longrightarrow> result = ([HttpGet request, st_error (network_error_message m)], Inr JNull))
     \<and> requests_of (fst result) = [request])
   \<and> (\<forall>c m m'. distinct [timeout_message, rate_limit_message, http_error_message c m,
                          network_error_message m'])
   \<and> timeout_or_default None = 10
   \<and> requests_of (fst (get_mars_weather net)) = [weather_request]
   \<and> distinct (requests_of (fst (get_rover_photos net rover_name n)))
   \<and> length (requests_of (fst (get_rover_photos net rover_name n))) \<le> 2"
  unfolding Let_def
  apply (intro conjI allI impI)
            apply (simp_all add: make_request_once gateway_messages_distinct
      get_mars_weather_requests get_rover_photos_no_retry del: distinct.simps)
       apply (simp_all add: make_request_def Let_def http_error_message_def
      timeout_or_default_def)
  done

theorem make_request_failure_mapping_witness:
  "make_request (canned [(MSL_MANIFEST_URL, Returns (JObj [(''sols'', JArr [])]))])
       MSL_MANIFEST_URL None None
     = ([HttpGet \<lparr>url = MSL_MANIFEST_URL, params = None, timeout = 10\<rparr>],
        Inr (JObj [(''sols'', JArr [])]))
   \<and> make_request (canned [(MSL_MANIFEST_URL, Raises (Timeout ''Read timed out.''))])
       MSL_MANIFEST_URL None None
     = ([HttpGet \<lparr>url = MSL_MANIFEST_URL, params = None, timeout = 10\<rparr>,
         st_error timeout_message], Inr JNull)
   \<and> make_request (canned [(MSL_MANIFEST_URL, Raises (HTTPError 429 ''429 Client Error''))])
       MSL_MANIFEST_URL None None
     = ([HttpGet \<lparr>url = MSL_MANIFEST_URL, params = None, timeout = 10\<rparr>,
         st_error rate_limit_message], Inr JNull)
   \<and> make_request (canned [(MSL_MANIFEST_URL, Raises (HTTPError 503 ''503 Server Error''))])
       MSL_MANIFEST_URL None None
     = ([HttpGet \<lparr>url = MSL_MANIFEST_URL, params = None, timeout = 10\<rparr>,
         st_error (http_error_message 503 ''503 Server Error'')], Inr JNull)
   \<and> make_request (canned []) MSL_MANIFEST_URL None (Some 3)
     = ([HttpGet \<lparr>url = MSL_MANIFEST_URL, params = None, timeout = 3\<rparr>,
         st_error (network_error_message ''unreachable'')], Inr JNull)"
proof -
  have d: "timeout_or_default None = 10" "timeout_or_default (Some 3) = 3"
    by (simp_all add: timeout_or_default_def)
  have a: "canned [(MSL_MANIFEST_URL, Returns (JObj [(''sols'', JArr [])]))]
             \<lparr>url = MSL_MANIFEST_URL, params = None, timeout = timeout_or_default None\<rparr>
           = Returns (JObj [(''sols'', JArr [])])"
    by (simp add: canned_def)
  have b: "canned [(MSL_MANIFEST_URL, Raises (Timeout ''Read timed out.''))]
             \<lparr>url = MSL_MANIFEST_URL, params = None, timeout = timeout_or_default None\<rparr>
           = Raises (Timeout ''Read timed out.'')"
    by (simp add: canned_def)
  have c: "canned [(MSL_MANIFEST_URL, Raises (HTTPError 429 ''429 Client Error''))]
             \<lparr>url = MSL_MANIFEST_URL, params = None, timeout = timeout_or_default None\<rparr>
           = Raises (HTTPError 429 ''429 Client Error'')"
    by (simp add: canned_def)
  have e: "canned [(MSL_MANIFEST_URL, Raises (HTTPError 503 ''503 Server Error''))]
             \<lparr>url = MSL_MANIFEST_URL, params = None, timeout = timeout_or_default None\<rparr>
           = Raises (HTTPError 503 ''503 Server Error'') \<and> (503::nat) \<noteq> 429"
    by (simp add: canned_def)
  have f: "canned []
             \<lparr>url = MSL_MANIFEST_URL, params = None, timeout = timeout_or_default (Some 3)\<rparr>
           = Raises (RequestException ''unreachable'')"
    by (simp add: canned_def)
  note t = make_request_failure_mapping [unfolded Let_def]
  from a t [where net = "canned [(MSL_MANIFEST_URL, Returns (JObj [(''sols'', JArr [])]))]"
      and u = MSL_MANIFEST_URL and ps = None and t = None]
  have ra: "make_request (canned [(MSL_MANIFEST_URL, Returns (JObj [(''sols'', JArr [])]))])
       MSL_MANIFEST_URL None None
     = ([HttpGet \<lparr>url = MSL_MANIFEST_URL, params = None, timeout = 10\<rparr>],
        Inr (JObj [(''sols'', JArr [])]))"
    by (simp add: d)
  from b t [where net = "canned [(MSL_MANIFEST_URL, Raises (Timeout ''Read timed out.''))]"
      and u = MSL_MANIFEST_URL and ps = None and t = None]
  have rb: "make_request (canned [(MSL_MANIFEST_URL, Raises (Timeout ''Read timed out.''))])
       MSL_MANIFEST_URL None None
     = ([HttpGet \<lparr>url = MSL_MANIFEST_URL, params = None, timeout = 10\<rparr>,
         st_error timeout_message], Inr JNull)"
    by (simp add: d)
  from c t [where net = "canned [(MSL_MANIFEST_URL, Raises (HTTPError 429 ''429 Client Error''))]"
      and u = MSL_MANIFEST_URL and ps = None and t = None]
  have rc: "make_request
       (canned [(MSL_MANIFEST_URL, Raises (HTTPError 429 ''429 Client Error''))])
       MSL_MANIFEST_URL None None
     = ([HttpGet \<lparr>url = MSL_MANIFEST_URL, params = None, timeout = 10\<rparr>,
         st_error rate_limit_message], Inr JNull)"
    by (simp add: d)
  from e t [where net = "canned [(MSL_MANIFEST_URL, Raises (HTTPError 503 ''503 Server Error''))]"
      and u = MSL_MANIFEST_URL and ps = None and t = None]
  have re: "make_request
       (canned [(MSL_MANIFEST_URL, Raises (HTTPError 503 ''503 Server Error''))])
       MSL_MANIFEST_URL None None
     = ([HttpGet \<lparr>url = MSL_MANIFEST_URL, params = None, timeout = 10\<rparr>,
         st_error (http_error_message 503 ''503 Server Error'')], Inr JNull)"
    by (simp add: d)
  from f t [where net = "canned []" and u = MSL_MANIFEST_URL and ps = None and t = "Some 3"]
  have rf: "make_request (canned []) MSL_MANIFEST_URL None (Some 3)
     = ([HttpGet \<lparr>url = MSL_MANIFEST_URL, params = None, timeout = 3\<rparr>,
         st_error (network_error_message ''unreachable'')], Inr JNull)"
    by (simp add: d)
  from ra rb rc re rf show ?thesis by blast
qed

end
